theory Spec2Isabelle
  imports Complex_Main "HOL-Library.Multiset" "HOL-Library.Product_Lexorder" "HOL-Library.Log_Nat"
begin

section \<open>Data model\<close>

text \<open>
  Documents of the two collections, as the Mongoose schemas declare them
  (\<^verbatim>\<open>models/task.js\<close>, \<^verbatim>\<open>models/user.js\<close>). An ObjectId is carried as
  its string form; strings are byte lists, so a character outside ASCII is written as its
  UTF-8 bytes. \<^verbatim>\<open>createdAt\<close> is the creation time in milliseconds.
  \<^verbatim>\<open>prioridade\<close> is optional because the aggregation pipelines read raw
  documents and provide for a missing value.

  Modelled from the spec: the \<^verbatim>\<open>category\<close> field of a task. The routes read
  and write it, the schema files at hand do not declare it; the spec describes it as a
  free-form label.
\<close>

type_synonym objectId = string

record task =
  task_id :: objectId
  titulo :: string
  descricao :: "string option"
  concluida :: bool
  prioridade :: "string option"
  category :: "string option"
  user :: objectId
  createdAt :: int

record user_doc =
  user_id :: objectId
  nome :: string
  telefone :: string
  email :: string
  password :: string
  role :: string

text \<open>The session fields the login handler writes: userId, userRole, userName.\<close>

record session =
  userId :: "objectId option"
  userRole :: "string option"
  userName :: "string option"

text \<open>
  What a handler sends: a redirect, a JSON envelope with its status code and
  \<^verbatim>\<open>success\<close> flag, or a rendered view with its locals.
\<close>

datatype payload =
    Data task
  | DataList "task list"
  | Message string
  | ValidationMessage "string list"

text \<open>
  A document as an aggregation pipeline returns it: the task, the owner's user document
  where a \<^verbatim>\<open>$lookup\<close> stage joined one, and the computed
  \<^verbatim>\<open>priorityOrder\<close> field.
\<close>

record listed =
  doc :: task
  userDetails :: "user_doc option"
  priorityOrder :: int

record stats =
  total :: int
  concluidas :: int
  pendentes :: int
  percentual :: int

datatype local_value =
    Str string
  | Undefined
  | Tasks "listed list"
  | TaskDocs "task list"
  | Stats stats

datatype response =
    Redirect string
  | Json nat bool payload
  | Render string "(string \<times> local_value) list"

definition Alta :: string where
  "Alta = ''Alta''"

definition Media :: string where
  "Media = ''M'' @ [CHR 0xC3, CHR 0xA9] @ ''dia''"

definition Baixa :: string where
  "Baixa = ''Baixa''"

section \<open>Session guards (middleware/authMiddleware.js)\<close>

text \<open>
  \<^verbatim>\<open>res.locals.userIsLoggedIn = !!(req.session && req.session.userId)\<close>:
  a missing or empty userId is falsy.
\<close>

definition userIsLoggedIn :: "session \<Rightarrow> bool" where
  "userIsLoggedIn s = (case userId s of None \<Rightarrow> False | Some u \<Rightarrow> u \<noteq> [])"

text \<open>
  A guard either answers the request itself (\<open>Some\<close> response) or calls
  \<^verbatim>\<open>next()\<close> (\<open>None\<close>), which runs the route's handler.
  \<^verbatim>\<open>isAuthenticated\<close> sends every request that is not logged in to the login
  page; \<^verbatim>\<open>isGuest\<close> sends every logged-in request to the task page.
\<close>

definition isAuthenticated :: "session \<Rightarrow> response option" where
  "isAuthenticated s = (if userIsLoggedIn s then None else Some (Redirect ''/login''))"

definition isGuest :: "session \<Rightarrow> response option" where
  "isGuest s = (if userIsLoggedIn s then Some (Redirect ''/tarefas'') else None)"

section \<open>Task schema: setters, defaults and validators (models/task.js)\<close>

definition is_space :: "char \<Rightarrow> bool" where
  "is_space c = (c \<in> set [CHR '' '', CHR 0x09, CHR 0x0A, CHR 0x0B, CHR 0x0C, CHR 0x0D])"

definition trim :: "string \<Rightarrow> string" where
  "trim s = rev (dropWhile is_space (rev (dropWhile is_space s)))"

text \<open>
  The validators of the schema, run by \<^verbatim>\<open>save\<close>: titulo is required (an empty
  string does not satisfy it) and at most 100 long, descricao at most 500 long, prioridade
  one of the enum values, user required. The result lists the messages of the validators
  that failed.
\<close>

definition task_errors ::
  "string option \<Rightarrow> string option \<Rightarrow> string option \<Rightarrow> objectId option \<Rightarrow> string list" where
  "task_errors tit des pri usr =
     (case tit of
        None \<Rightarrow> [''titulo: required'']
      | Some t \<Rightarrow> (if t = [] then [''titulo: required'']
                   else if length t > 100 then [''titulo: maxlength''] else []))
     @ (case des of None \<Rightarrow> [] | Some d \<Rightarrow> (if length d > 500 then [''descricao: maxlength''] else []))
     @ (case pri of None \<Rightarrow> []
        | Some p \<Rightarrow> (if p \<in> set [Baixa, Media, Alta] then [] else [''prioridade: enum'']))
     @ (case usr of None \<Rightarrow> [''user: required'']
        | Some u \<Rightarrow> (if u = [] then [''user: required''] else []))"

section \<open>Task store\<close>

text \<open>
  The collection is the list of its documents. \<^verbatim>\<open>Task.findById(req.params.id)\<close>
  first casts the string of the route to an ObjectId and throws a CastError when the
  string is not well-formed; the handler's catch block answers that. \<open>castable\<close> is
  the driver's test of a well-formed id, which every version passes for a string of 24
  hexadecimal digits and fails for a string such as \<^verbatim>\<open>zz\<close>.
\<close>

datatype store_error = CastError string

definition cast_message :: "store_error \<Rightarrow> string" where
  "cast_message e =
     (case e of CastError v \<Rightarrow>
        ''Cast to ObjectId failed for value '' @ [CHR 0x22] @ v @ [CHR 0x22]
          @ '' (type string) at path '' @ [CHR 0x22] @ ''_id'' @ [CHR 0x22]
          @ '' for model '' @ [CHR 0x22] @ ''Task'' @ [CHR 0x22])"

definition findById :: "(string \<Rightarrow> bool) \<Rightarrow> task list \<Rightarrow> string \<Rightarrow> store_error + task option" where
  "findById castable db i =
     (if castable i then Inr (find (\<lambda>t. task_id t = i) db) else Inl (CastError i))"

definition deleteOne :: "task list \<Rightarrow> objectId \<Rightarrow> task list" where
  "deleteOne db i = (case find (\<lambda>t. task_id t = i) db of None \<Rightarrow> db | Some t \<Rightarrow> remove1 t db)"

text \<open>The strings every version of the driver takes for an ObjectId.\<close>

definition is_hex :: "char \<Rightarrow> bool" where
  "is_hex c = (c \<in> set ''0123456789abcdefABCDEF'')"

definition hex24 :: "string \<Rightarrow> bool" where
  "hex24 v = (length v = 24 \<and> list_all is_hex v)"

text \<open>\<^verbatim>\<open>task.save()\<close> of a loaded document writes it back in its place.\<close>

definition replace_task :: "task list \<Rightarrow> task \<Rightarrow> task list" where
  "replace_task db t' = map (\<lambda>t. if task_id t = task_id t' then t' else t) db"

section \<open>JSON API (routes/api.js, the variant behind isAuthenticated)\<close>

text \<open>
  The body of a task request: each field of the schema may be present or absent.
\<close>

record task_body =
  b_titulo :: "string option"
  b_descricao :: "string option"
  b_concluida :: "bool option"
  b_prioridade :: "string option"
  b_category :: "string option"
  b_user :: "objectId option"

definition nao_encontrada :: string where
  "nao_encontrada = ''Tarefa n'' @ [CHR 0xC3, CHR 0xA3] @ ''o encontrada.''"

definition excluida :: string where
  "excluida = ''Tarefa exclu'' @ [CHR 0xC3, CHR 0xAD] @ ''da com sucesso.''"

text \<open>
  \<^verbatim>\<open>Object.assign(task, req.body)\<close>: every field the body carries is set on the
  document, through the schema's setters (trim on titulo and descricao).
\<close>

definition assign_body :: "task \<Rightarrow> task_body \<Rightarrow> task" where
  "assign_body t b =
     t\<lparr> titulo := (case b_titulo b of None \<Rightarrow> titulo t | Some v \<Rightarrow> trim v),
        descricao := (case b_descricao b of None \<Rightarrow> descricao t | Some v \<Rightarrow> Some (trim v)),
        concluida := (case b_concluida b of None \<Rightarrow> concluida t | Some v \<Rightarrow> v),
        prioridade := (case b_prioridade b of None \<Rightarrow> prioridade t | Some v \<Rightarrow> Some v),
        category := (case b_category b of None \<Rightarrow> category t | Some v \<Rightarrow> Some v),
        user := (case b_user b of None \<Rightarrow> user t | Some v \<Rightarrow> v) \<rparr>"

text \<open>
  PUT /api/tarefas/:id. Whatever the \<^verbatim>\<open>try\<close> block throws is answered 400
  with the error's message: the CastError of the lookup, and the validation error of
  \<^verbatim>\<open>save\<close>, which also reports a user field of the body that is no ObjectId.
\<close>

definition put_tarefa ::
  "(string \<Rightarrow> bool) \<Rightarrow> session \<Rightarrow> string \<Rightarrow> task_body \<Rightarrow> task list \<Rightarrow> response \<times> task list" where
  "put_tarefa castable s i body db =
     (case isAuthenticated s of
        Some r \<Rightarrow> (r, db)
      | None \<Rightarrow>
       (case findById castable db i of
          Inl e \<Rightarrow> (Json 400 False (Message (cast_message e)), db)
        | Inr None \<Rightarrow> (Json 404 False (Message nao_encontrada), db)
        | Inr (Some t) \<Rightarrow>
            (let userIsAdmin = (userRole s = Some ''admin'');
                 userIsOwner = (Some (user t) = userId s)
             in if \<not> userIsAdmin \<and> \<not> userIsOwner
                then (Json 403 False (Message ''Acesso negado.''), db)
                else (let t' = assign_body t body;
                          errs = task_errors (Some (titulo t')) (descricao t') (prioridade t')
                                   (Some (user t'))
                                 @ (case b_user body of
                                      None \<Rightarrow> []
                                    | Some v \<Rightarrow> (if castable v then [] else [''user: cast'']))
                      in if errs \<noteq> [] then (Json 400 False (ValidationMessage errs), db)
                         else (Json 200 True (Data t'), replace_task db t')))))"

text \<open>DELETE /api/tarefas/:id. Its catch block answers 500.\<close>

definition delete_tarefa ::
  "(string \<Rightarrow> bool) \<Rightarrow> session \<Rightarrow> string \<Rightarrow> task list \<Rightarrow> response \<times> task list" where
  "delete_tarefa castable s i db =
     (case isAuthenticated s of
        Some r \<Rightarrow> (r, db)
      | None \<Rightarrow>
       (case findById castable db i of
          Inl e \<Rightarrow> (Json 500 False (Message (cast_message e)), db)
        | Inr None \<Rightarrow> (Json 404 False (Message nao_encontrada), db)
        | Inr (Some t) \<Rightarrow>
            (let userIsAdmin = (userRole s = Some ''admin'');
                 userIsOwner = (Some (user t) = userId s)
             in if \<not> userIsAdmin \<and> \<not> userIsOwner
                then (Json 403 False (Message ''Acesso negado.''), db)
                else (Json 200 True (Message excluida), deleteOne db i))))"

text \<open>
  POST /api/tarefas. The handler reads titulo, descricao, prioridade and category from the
  body and takes the owner from the session. \<open>new_id\<close> is the ObjectId the driver
  generates and \<open>now\<close> the time of the save. The schema's defaults fill concluida
  and a missing prioridade. A task without titulo or without owner does not pass the
  required validators, so the last case answers 400 as well.
\<close>

definition post_tarefa ::
  "session \<Rightarrow> task_body \<Rightarrow> objectId \<Rightarrow> int \<Rightarrow> task list \<Rightarrow> response \<times> task list" where
  "post_tarefa s body new_id now db =
     (case isAuthenticated s of
        Some r \<Rightarrow> (r, db)
      | None \<Rightarrow>
         (let tit = map_option trim (b_titulo body);
              des = map_option trim (b_descricao body);
              pri = (case b_prioridade body of None \<Rightarrow> Some Media | Some p \<Rightarrow> Some p);
              errs = task_errors tit des pri (userId s)
          in case (tit, userId s) of
               (Some t, Some u) \<Rightarrow>
                 if errs \<noteq> [] then (Json 400 False (ValidationMessage errs), db)
                 else (let newTask = \<lparr> task_id = new_id, titulo = t, descricao = des,
                                         concluida = False, prioridade = pri,
                                         category = b_category body, user = u,
                                         createdAt = now \<rparr>
                       in (Json 201 True (Data newTask), db @ [newTask]))
             | _ \<Rightarrow> (Json 400 False (ValidationMessage errs), db)))"

section \<open>Ranking and listing (routes/pages.js, routes/api.js)\<close>

text \<open>
  The \<^verbatim>\<open>$switch\<close> of the \<^verbatim>\<open>$addFields\<close> stage: the branches in
  their order, then the default.
\<close>

definition priority_switch :: "string option \<Rightarrow> int" where
  "priority_switch p =
     (if p = Some Alta then 3
      else if p = Some Media then 2
      else if p = Some Baixa then 1
      else 2)"

definition addFields :: "task \<times> user_doc option \<Rightarrow> listed" where
  "addFields d = \<lparr> doc = fst d, userDetails = snd d, priorityOrder = priority_switch (prioridade (fst d)) \<rparr>"

text \<open>
  \<^verbatim>\<open>{ $sort: { concluida: 1, priorityOrder: -1, createdAt: -1 } }\<close>: ascending on
  the first key (false before true), descending on the other two. The stage is a sort by
  the lexicographic key; documents with equal keys keep their order here, which the store
  does not promise.
\<close>

definition sort_stage :: "listed list \<Rightarrow> listed list" where
  "sort_stage ds = sort_key (\<lambda>d. (concluida (doc d), - priorityOrder d, - createdAt (doc d))) ds"

text \<open>
  The two stages that end every listing pipeline of the pages.
\<close>

definition rank_stages :: "(task \<times> user_doc option) list \<Rightarrow> listed list" where
  "rank_stages ds = sort_stage (map addFields ds)"

text \<open>
  GET /tarefas, the variant that lists the tasks of the logged-in user:
  \<^verbatim>\<open>$match\<close> on the session's userId, \<^verbatim>\<open>$addFields\<close>,
  \<^verbatim>\<open>$sort\<close>.
\<close>

definition tarefas_pipeline :: "objectId \<Rightarrow> task list \<Rightarrow> listed list" where
  "tarefas_pipeline uid db =
     rank_stages (map (\<lambda>t. (t, None)) (filter (\<lambda>t. user t = uid) db))"

definition get_tarefas :: "session \<Rightarrow> task list \<Rightarrow> response" where
  "get_tarefas s db =
     (case isAuthenticated s of
        Some r \<Rightarrow> r
      | None \<Rightarrow>
         (case userId s of
            None \<Rightarrow> Redirect ''/login''
          | Some uid \<Rightarrow>
              Render ''tarefas''
                [(''title'', Str ''Gerenciador de Tarefas''),
                 (''description'', Str ''Gerencie suas tarefas de forma simples e eficiente.''),
                 (''tasks'', Tasks (tarefas_pipeline uid db))]))"

text \<open>
  The category pages (GET /tarefas, /tcc, /trabalho and /carro of the collaborative
  variant): \<^verbatim>\<open>$match\<close> on the category alone, \<^verbatim>\<open>$lookup\<close> of the
  owner in the users collection, \<^verbatim>\<open>$unwind\<close> that keeps a task whose owner
  is not found, \<^verbatim>\<open>$addFields\<close>, \<^verbatim>\<open>$sort\<close>.
\<close>

definition lookup_unwind :: "user_doc list \<Rightarrow> task \<Rightarrow> (task \<times> user_doc option) list" where
  "lookup_unwind users t =
     (case filter (\<lambda>u. user_id u = user t) users of
        [] \<Rightarrow> [(t, None)]
      | us \<Rightarrow> map (\<lambda>u. (t, Some u)) us)"

definition category_pipeline :: "string \<Rightarrow> user_doc list \<Rightarrow> task list \<Rightarrow> listed list" where
  "category_pipeline cat users db =
     rank_stages (concat (map (lookup_unwind users) (filter (\<lambda>t. category t = Some cat) db)))"

definition get_category_page ::
  "string \<Rightarrow> string \<Rightarrow> string \<Rightarrow> session \<Rightarrow> user_doc list \<Rightarrow> task list \<Rightarrow> response" where
  "get_category_page cat page_title page_description s users db =
     (case isAuthenticated s of
        Some r \<Rightarrow> r
      | None \<Rightarrow>
          Render ''tarefas''
            [(''title'', Str page_title),
             (''description'', Str page_description),
             (''tasks'', Tasks (category_pipeline cat users db)),
             (''layout'', Str ''layout'')])"

definition get_tarefas_categoria :: "session \<Rightarrow> user_doc list \<Rightarrow> task list \<Rightarrow> response" where
  "get_tarefas_categoria =
     get_category_page ''Tarefa'' ''Minhas Tarefas'' ''Acompanhe todas as suas tarefas.''"

definition get_tcc :: "session \<Rightarrow> user_doc list \<Rightarrow> task list \<Rightarrow> response" where
  "get_tcc = get_category_page ''Meu TCC'' ''Meu TCC'' ''Acompanhe o progresso do seu TCC.''"

definition get_trabalho :: "session \<Rightarrow> user_doc list \<Rightarrow> task list \<Rightarrow> response" where
  "get_trabalho =
     get_category_page ''Trabalho'' ''Trabalho''
       (''Acompanhe suas pend'' @ [CHR 0xC3, CHR 0xAA] @ ''ncias do trabalho.'')"

definition get_carro :: "session \<Rightarrow> user_doc list \<Rightarrow> task list \<Rightarrow> response" where
  "get_carro =
     get_category_page ''Carro''
       (''Manuten'' @ [CHR 0xC3, CHR 0xA7, CHR 0xC3, CHR 0xA3] @ ''o do Carro'')
       (''Acompanhe seus itens de manuten'' @ [CHR 0xC3, CHR 0xA7, CHR 0xC3, CHR 0xA3] @ ''o.'')"

text \<open>
  GET /api/tarefas: \<^verbatim>\<open>Task.find().sort({ concluida: 1, createdAt: -1 })\<close>, with
  no guard and no filter.
\<close>

definition get_api_tarefas :: "session \<Rightarrow> task list \<Rightarrow> response" where
  "get_api_tarefas s db =
     Json 200 True (DataList (sort_key (\<lambda>t. (concluida t, - createdAt t)) db))"

section \<open>User schema (models/user.js)\<close>

text \<open>
  The setters of the email path: \<^verbatim>\<open>lowercase: true, trim: true\<close>. The first is
  \<^verbatim>\<open>String.prototype.toLowerCase\<close>, which folds the letters of every script by
  the tables of the Unicode standard; it is the parameter \<open>toLowerCase\<close> of everything
  that touches an email address, and what is proved holds for every such function.
\<close>

definition email_setters :: "(string \<Rightarrow> string) \<Rightarrow> string \<Rightarrow> string" where
  "email_setters toLowerCase e = trim (toLowerCase e)"

text \<open>What \<^verbatim>\<open>toLowerCase\<close> does to a string of ASCII characters.\<close>

definition lower_char :: "char \<Rightarrow> char" where
  "lower_char c = (let n = (of_char c :: nat) in if 65 \<le> n \<and> n \<le> 90 then char_of (n + 32) else c)"

definition ascii_toLowerCase :: "string \<Rightarrow> string" where
  "ascii_toLowerCase s = map lower_char s"

text \<open>
  The \<^verbatim>\<open>match\<close> validator \<^verbatim>\<open>/.+\@.+\..+/\<close>, unanchored. A dot of
  the pattern matches any character but a line terminator. Each function below matches
  a tail of the pattern against the front of the string.
\<close>

definition any_char :: "char \<Rightarrow> bool" where
  "any_char c = (c \<noteq> CHR 0x0A \<and> c \<noteq> CHR 0x0D)"

fun match_tail :: "string \<Rightarrow> bool" where
  "match_tail [] = False"
| "match_tail (c # cs) = any_char c"

fun match_dot :: "string \<Rightarrow> bool" where
  "match_dot [] = False"
| "match_dot (c # cs) = ((c = CHR ''.'' \<and> match_tail cs) \<or> (any_char c \<and> match_dot cs))"

fun match_domain :: "string \<Rightarrow> bool" where
  "match_domain [] = False"
| "match_domain (c # cs) = (any_char c \<and> match_dot cs)"

fun match_at :: "string \<Rightarrow> bool" where
  "match_at [] = False"
| "match_at (c # cs) = ((c = CHR ''@'' \<and> match_domain cs) \<or> (any_char c \<and> match_at cs))"

fun match_here :: "string \<Rightarrow> bool" where
  "match_here [] = False"
| "match_here (c # cs) = (any_char c \<and> match_at cs)"

fun email_match :: "string \<Rightarrow> bool" where
  "email_match [] = False"
| "email_match (c # cs) = (match_here (c # cs) \<or> email_match cs)"

text \<open>The body of the registration and login forms; a field may be absent.\<close>

record form_body =
  f_nome :: "string option"
  f_telefone :: "string option"
  f_email :: "string option"
  f_password :: "string option"

definition required_errors :: "string \<Rightarrow> string option \<Rightarrow> string list" where
  "required_errors msg v = (case v of None \<Rightarrow> [msg] | Some x \<Rightarrow> (if x = [] then [msg] else []))"

definition email_invalido :: string where
  "email_invalido = ''Por favor, insira um e-mail v'' @ [CHR 0xC3, CHR 0xA1] @ ''lido.''"

definition user_errors ::
  "string option \<Rightarrow> string option \<Rightarrow> string option \<Rightarrow> string option \<Rightarrow> string list" where
  "user_errors nom tel eml pw =
     required_errors ''nome: required'' nom
     @ required_errors ''telefone: required'' tel
     @ (case eml of None \<Rightarrow> [''email: required'']
        | Some e \<Rightarrow> (if e = [] then [''email: required'']
                     else if \<not> email_match e then [email_invalido] else []))
     @ (case pw of None \<Rightarrow> [''password: required'']
        | Some p \<Rightarrow> (if p = [] then [''password: required'']
                     else if length p < 6 then [''password: minlength''] else []))"

datatype save_error = ValidationError "string list" | DuplicateKey string

text \<open>
  The text of \<^verbatim>\<open>error.message\<close>: the validators' messages, or the driver's
  duplicate-key message of the unique index on email.
\<close>

definition error_message :: "save_error \<Rightarrow> string" where
  "error_message e =
     (case e of
        ValidationError msgs \<Rightarrow> ''User validation failed: '' @ concat (map (\<lambda>m. m @ '', '') msgs)
      | DuplicateKey k \<Rightarrow> ''E11000 duplicate key error: email '' @ k)"

text \<open>
  \<^verbatim>\<open>User.findOne({ email })\<close>. Mongoose casts the filter with the schema of the
  path, which runs the path's setters on the value, so the lookup is by the lowercased,
  trimmed address. An absent email matches no user, since every user has one.
\<close>

definition findOne_email ::
  "(string \<Rightarrow> string) \<Rightarrow> user_doc list \<Rightarrow> string option \<Rightarrow> user_doc option" where
  "findOne_email toLowerCase users e =
     (case e of
        None \<Rightarrow> None
      | Some a \<Rightarrow> find (\<lambda>u. email u = email_setters toLowerCase a) users)"

text \<open>
  \<^verbatim>\<open>new User({ nome, telefone, email, password }).save()\<close>: the setters, the
  validators, the pre-save hook that replaces the password by its salted hash
  (\<open>hash\<close> is \<^verbatim>\<open>bcrypt.hash\<close> with the salt of this call), then the insert,
  which the unique index on email refuses for an address already stored.
\<close>

definition save_user ::
  "(string \<Rightarrow> string) \<Rightarrow> (string \<Rightarrow> string) \<Rightarrow> objectId \<Rightarrow> form_body \<Rightarrow> user_doc list
     \<Rightarrow> save_error + user_doc list" where
  "save_user toLowerCase hash new_id body users =
     (let nom = map_option trim (f_nome body);
          tel = map_option trim (f_telefone body);
          eml = map_option (email_setters toLowerCase) (f_email body);
          pw = f_password body;
          errs = user_errors nom tel eml pw
      in case (nom, tel, eml, pw) of
           (Some n, Some t, Some e, Some p) \<Rightarrow>
             if errs \<noteq> [] then Inl (ValidationError errs)
             else if (\<exists>u \<in> set users. email u = e) then Inl (DuplicateKey e)
             else Inr (users @ [\<lparr> user_id = new_id, nome = n, telefone = t, email = e,
                                   password = hash p, role = ''user'' \<rparr>])
         | _ \<Rightarrow> Inl (ValidationError errs))"

section \<open>Registration and login (routes/auth.js)\<close>

definition cadastro_title :: string where
  "cadastro_title = ''Cadastro de Usu'' @ [CHR 0xC3, CHR 0xA1] @ ''rio''"

definition ja_cadastrado :: string where
  "ja_cadastrado = ''Este e-mail j'' @ [CHR 0xC3, CHR 0xA1] @ '' est'' @ [CHR 0xC3, CHR 0xA1]
     @ '' cadastrado.''"

definition invalidos :: string where
  "invalidos = ''E-mail ou senha inv'' @ [CHR 0xC3, CHR 0xA1] @ ''lidos.''"

definition local_of :: "string option \<Rightarrow> local_value" where
  "local_of v = (case v of None \<Rightarrow> Undefined | Some x \<Rightarrow> Str x)"

text \<open>GET /cadastro, behind \<^verbatim>\<open>isGuest\<close>.\<close>

definition get_cadastro :: "session \<Rightarrow> user_doc list \<Rightarrow> response \<times> user_doc list" where
  "get_cadastro s users =
     (case isGuest s of
        Some r \<Rightarrow> (r, users)
      | None \<Rightarrow>
          (Render ''cadastro''
             [(''title'', Str cadastro_title),
              (''description'', Str ''Crie sua conta para acessar o sistema.''),
              (''layout'', Str ''layout'')], users))"

text \<open>
  POST /cadastro. The route has no guard: the handler runs for every request and does not
  read the session.
\<close>

definition post_cadastro ::
  "(string \<Rightarrow> string) \<Rightarrow> (string \<Rightarrow> string) \<Rightarrow> objectId \<Rightarrow> session \<Rightarrow> form_body
     \<Rightarrow> user_doc list \<Rightarrow> response \<times> user_doc list" where
  "post_cadastro toLowerCase hash new_id s body users =
     (case findOne_email toLowerCase users (f_email body) of
        Some userExists \<Rightarrow>
          (Render ''cadastro''
             [(''title'', Str cadastro_title),
              (''error'', Str ja_cadastrado),
              (''nome'', local_of (f_nome body)),
              (''telefone'', local_of (f_telefone body)),
              (''email'', local_of (f_email body))], users)
      | None \<Rightarrow>
          (case save_user toLowerCase hash new_id body users of
             Inr users' \<Rightarrow> (Redirect ''/login?status=success'', users')
           | Inl err \<Rightarrow>
               (Render ''cadastro''
                  [(''title'', Str cadastro_title),
                   (''error'', Str (error_message err))], users)))"

text \<open>
  POST /login. \<open>compare\<close> is \<^verbatim>\<open>bcrypt.compare\<close> (entered password, stored
  hash); it throws when the entered password is absent, and the handler's catch block
  answers that.
\<close>

definition post_login ::
  "(string \<Rightarrow> string) \<Rightarrow> (string \<Rightarrow> string \<Rightarrow> bool) \<Rightarrow> session \<Rightarrow> form_body \<Rightarrow> user_doc list
     \<Rightarrow> response \<times> session" where
  "post_login toLowerCase compare s body users =
     (let failure = (Render ''login'' [(''title'', Str ''Login''), (''error'', Str invalidos)], s)
      in case findOne_email toLowerCase users (f_email body) of
           None \<Rightarrow> failure
         | Some u \<Rightarrow>
             (case f_password body of
                None \<Rightarrow>
                  (Render ''login''
                     [(''title'', Str ''Login''),
                      (''error'', Str ''Ocorreu um erro ao tentar fazer login.'')], s)
              | Some pw \<Rightarrow>
                  if \<not> compare pw (password u) then failure
                  else (Redirect ''/tarefas'',
                        s\<lparr> userId := Some (user_id u), userRole := Some (role u),
                           userName := Some (nome u) \<rparr>)))"

section \<open>Dashboard statistics (routes/pages.js)\<close>

text \<open>
  A JavaScript number is an IEEE 754 double. The counts are integers below \<open>2^53\<close>
  and exact; the quotient and the product are each rounded to the nearest double, ties to
  the even significand. A double in the normal range is \<open>m * 2^e\<close> with
  \<open>2^52 \<le> m < 2^53\<close>; the values of this computation lie between \<open>2^-32\<close>
  and 100, so underflow and overflow are left out.
\<close>

definition pow2 :: "int \<Rightarrow> rat" where
  "pow2 k = (if 0 \<le> k then 2 ^ nat k else 1 / 2 ^ nat (- k))"

text \<open>
  The exponent of the leading bit of a positive rational:
  \<open>2^binade x \<le> x < 2^(binade x + 1)\<close> (lemmas \<open>binade_lower\<close> and
  \<open>binade_upper\<close> below).
\<close>

definition binade :: "rat \<Rightarrow> int" where
  "binade x = (let d = bitlen (fst (quotient_of x)) - bitlen (snd (quotient_of x))
               in if pow2 d \<le> x then d else d - 1)"

text \<open>Round to the nearest integer, a tie to the even one.\<close>

definition rne :: "rat \<Rightarrow> int" where
  "rne x = (let f = \<lfloor>x\<rfloor>; r = x - of_int f
            in if r < 1 / 2 then f else if 1 / 2 < r then f + 1 else if even f then f else f + 1)"

definition round_pos :: "rat \<Rightarrow> rat" where
  "round_pos x = (let e = binade x - 52 in of_int (rne (x / pow2 e)) * pow2 e)"

definition round_double :: "rat \<Rightarrow> rat" where
  "round_double x = (if x = 0 then 0 else if 0 < x then round_pos x else - round_pos (- x))"

definition js_div :: "rat \<Rightarrow> rat \<Rightarrow> rat" where
  "js_div a b = round_double (a / b)"

definition js_mul :: "rat \<Rightarrow> rat \<Rightarrow> rat" where
  "js_mul a b = round_double (a * b)"

text \<open>\<^verbatim>\<open>Math.round\<close>: the nearest integer, a tie upwards.\<close>

definition math_round :: "rat \<Rightarrow> int" where
  "math_round x = \<lfloor>x + 1 / 2\<rfloor>"

text \<open>
  The statistics of GET /dashboard:
  \<^verbatim>\<open>total > 0 ? Math.round((concluidas / total) * 100) : 0\<close>.
\<close>

definition dashboard_stats :: "task list \<Rightarrow> stats" where
  "dashboard_stats allTasks =
     (let tot = int (length allTasks);
          con = int (length (filter concluida allTasks));
          pen = tot - con;
          per = (if tot > 0 then math_round (js_mul (js_div (of_int con) (of_int tot)) 100) else 0)
      in \<lparr> total = tot, concluidas = con, pendentes = pen, percentual = per \<rparr>)"

definition get_dashboard :: "session \<Rightarrow> task list \<Rightarrow> response" where
  "get_dashboard s db =
     (case isAuthenticated s of
        Some r \<Rightarrow> r
      | None \<Rightarrow>
          Render ''dashboard''
            [(''title'', Str ''Dashboard de Tarefas''),
             (''description'', Str ''Um resumo visual do progresso das suas tarefas.''),
             (''stats'', Stats (dashboard_stats db)),
             (''latestTasks'', TaskDocs (take 5 (sort_key (\<lambda>t. - createdAt t) db)))])"

section \<open>Sample documents\<close>

definition uid1 :: objectId where
  "uid1 = ''000000000000000000000001''"

definition uid2 :: objectId where
  "uid2 = ''000000000000000000000002''"

definition uid7 :: objectId where
  "uid7 = ''000000000000000000000007''"

definition uid9 :: objectId where
  "uid9 = ''000000000000000000000009''"

definition tid_a :: objectId where
  "tid_a = ''0000000000000000000000a1''"

definition tid_b :: objectId where
  "tid_b = ''0000000000000000000000b2''"

definition tid_c :: objectId where
  "tid_c = ''0000000000000000000000c3''"

definition tid_d :: objectId where
  "tid_d = ''0000000000000000000000d4''"

definition tid_e :: objectId where
  "tid_e = ''0000000000000000000000e5''"

definition tid_f :: objectId where
  "tid_f = ''0000000000000000000000f6''"

definition tid_x :: objectId where
  "tid_x = ''0000000000000000000000ff''"

definition task_a :: task where
  "task_a = \<lparr> task_id = tid_a, titulo = ''Comprar leite'', descricao = None, concluida = False,
              prioridade = Some Alta, category = Some ''Tarefa'', user = uid1, createdAt = 100 \<rparr>"

definition task_b :: task where
  "task_b = \<lparr> task_id = tid_b, titulo = ''Lavar o carro'', descricao = None, concluida = False,
              prioridade = Some Baixa, category = Some ''Carro'', user = uid1, createdAt = 300 \<rparr>"

definition task_c :: task where
  "task_c = \<lparr> task_id = tid_c, titulo = ''Entregar TCC'', descricao = None, concluida = True,
              prioridade = Some Alta, category = Some ''Meu TCC'', user = uid1, createdAt = 400 \<rparr>"

definition task_d :: task where
  "task_d = \<lparr> task_id = tid_d, titulo = ''Ler e-mails'', descricao = None, concluida = False,
              prioridade = None, category = Some ''Trabalho'', user = uid1, createdAt = 200 \<rparr>"

definition task_e :: task where
  "task_e = \<lparr> task_id = tid_e, titulo = ''Ligar para o banco'', descricao = None, concluida = False,
              prioridade = Some Alta, category = Some ''Tarefa'', user = uid1, createdAt = 500 \<rparr>"

definition task_f :: task where
  "task_f = \<lparr> task_id = tid_f, titulo = ''Pagar contas'', descricao = None, concluida = False,
              prioridade = Some Media, category = Some ''Tarefa'', user = uid2, createdAt = 600 \<rparr>"

definition sample_docs :: "(task \<times> user_doc option) list" where
  "sample_docs = [(task_c, None), (task_b, None), (task_d, None), (task_a, None), (task_e, None)]"

definition session_of :: "objectId \<Rightarrow> string \<Rightarrow> session" where
  "session_of u r = \<lparr> userId = Some u, userRole = Some r, userName = Some ''nome'' \<rparr>"

definition anonymous :: session where
  "anonymous = \<lparr> userId = None, userRole = None, userName = None \<rparr>"

definition empty_body :: task_body where
  "empty_body = \<lparr> b_titulo = None, b_descricao = None, b_concluida = None, b_prioridade = None,
                  b_category = None, b_user = None \<rparr>"

definition body_a :: task_body where
  "body_a = \<lparr> b_titulo = Some ''  Comprar leite '', b_descricao = None, b_concluida = None,
               b_prioridade = Some Alta, b_category = Some ''Tarefa'', b_user = Some uid9 \<rparr>"

definition form_ana :: form_body where
  "form_ana = \<lparr> f_nome = Some ''Ana'', f_telefone = Some ''21999'', f_email = Some ''Ana@X.com'',
                 f_password = Some ''segredo1'' \<rparr>"

definition user_ana :: user_doc where
  "user_ana = \<lparr> user_id = uid1, nome = ''Ana'', telefone = ''21999'', email = ''ana@x.com'',
                 password = ''h:segredo1'', role = ''user'' \<rparr>"

definition sample_hash :: "string \<Rightarrow> string" where
  "sample_hash p = ''h:'' @ p"

definition sample_compare :: "string \<Rightarrow> string \<Rightarrow> bool" where
  "sample_compare p h = (h = sample_hash p)"

definition login_ana_sem_senha :: form_body where
  "login_ana_sem_senha = \<lparr> f_nome = None, f_telefone = None, f_email = Some ''ana@x.com'',
                            f_password = None \<rparr>"

definition login_bia_sem_senha :: form_body where
  "login_bia_sem_senha = \<lparr> f_nome = None, f_telefone = None, f_email = Some ''bia@x.com'',
                            f_password = None \<rparr>"

definition done_task :: task where
  "done_task = \<lparr> task_id = tid_x, titulo = ''t'', descricao = None, concluida = True,
                 prioridade = None, category = None, user = uid1, createdAt = 0 \<rparr>"

definition open_task :: task where
  "open_task = done_task\<lparr> concluida := False \<rparr>"

definition forty_tasks :: "task list" where
  "forty_tasks = replicate 23 done_task @ replicate 17 open_task"

definition three_tasks :: "task list" where
  "three_tasks = [done_task, open_task, open_task]"

section \<open>Authorization of update and delete\<close>

lemmas sample_ids =
  uid1_def uid2_def uid7_def uid9_def tid_a_def tid_b_def tid_c_def tid_d_def tid_e_def
  tid_f_def tid_x_def

lemma put_tarefa_found:
  assumes "userIsLoggedIn s" and "findById castable db i = Inr (Some t)"
  shows "put_tarefa castable s i body db =
     (if userRole s \<noteq> Some ''admin'' \<and> Some (user t) \<noteq> userId s
      then (Json 403 False (Message ''Acesso negado.''), db)
      else (let t' = assign_body t body;
                errs = task_errors (Some (titulo t')) (descricao t') (prioridade t') (Some (user t'))
                       @ (case b_user body of
                            None \<Rightarrow> []
                          | Some v \<Rightarrow> (if castable v then [] else [''user: cast'']))
            in if errs \<noteq> [] then (Json 400 False (ValidationMessage errs), db)
               else (Json 200 True (Data t'), replace_task db t')))"
  using assms by (simp add: put_tarefa_def isAuthenticated_def Let_def)

lemma delete_tarefa_found:
  assumes "userIsLoggedIn s" and "findById castable db i = Inr (Some t)"
  shows "delete_tarefa castable s i db =
     (if userRole s \<noteq> Some ''admin'' \<and> Some (user t) \<noteq> userId s
      then (Json 403 False (Message ''Acesso negado.''), db)
      else (Json 200 True (Message excluida), deleteOne db i))"
  using assms by (simp add: delete_tarefa_def isAuthenticated_def Let_def)

lemma logged_in_session_of: "userIsLoggedIn (session_of uid2 ''user'')"
  by (simp add: userIsLoggedIn_def session_of_def uid2_def)

lemma hex24_tid_a: "hex24 tid_a"
  by (simp add: hex24_def is_hex_def tid_a_def)


lemma hex24_uid2: "hex24 uid2"
  by (simp add: hex24_def is_hex_def uid2_def)

lemma uid2_nonempty: "uid2 \<noteq> []"
  by (simp add: uid2_def)


text \<open>
  C2. For a logged-in identity and a task that exists, PUT and DELETE /api/tarefas/:id
  answer with success only if the session's role is admin or the session's userId is the
  task's owner; for every other identity both answer 403 and leave the store as it was.
\<close>

theorem mutation_requires_admin_or_owner:
  assumes "userIsLoggedIn s" and "findById castable db i = Inr (Some t)"
  shows "(\<forall>st p. fst (put_tarefa castable s i body db) = Json st True p
            \<longrightarrow> userRole s = Some ''admin'' \<or> userId s = Some (user t))
       \<and> (\<forall>st p. fst (delete_tarefa castable s i db) = Json st True p
            \<longrightarrow> userRole s = Some ''admin'' \<or> userId s = Some (user t))
       \<and> (userRole s \<noteq> Some ''admin'' \<and> userId s \<noteq> Some (user t)
            \<longrightarrow> put_tarefa castable s i body db = (Json 403 False (Message ''Acesso negado.''), db)
              \<and> delete_tarefa castable s i db = (Json 403 False (Message ''Acesso negado.''), db))"
proof (intro conjI allI impI)
  fix st p
  assume "fst (put_tarefa castable s i body db) = Json st True p"
  then show "userRole s = Some ''admin'' \<or> userId s = Some (user t)"
    by (auto simp: put_tarefa_found [OF assms] Let_def split: if_splits)
next
  fix st p
  assume "fst (delete_tarefa castable s i db) = Json st True p"
  then show "userRole s = Some ''admin'' \<or> userId s = Some (user t)"
    by (auto simp: delete_tarefa_found [OF assms] split: if_splits)
next
  assume "userRole s \<noteq> Some ''admin'' \<and> userId s \<noteq> Some (user t)"
  then have d: "userRole s \<noteq> Some ''admin'' \<and> Some (user t) \<noteq> userId s" by auto
  show "put_tarefa castable s i body db = (Json 403 False (Message ''Acesso negado.''), db)"
    using d by (simp add: put_tarefa_found [OF assms])
  show "delete_tarefa castable s i db = (Json 403 False (Message ''Acesso negado.''), db)"
    using d by (simp add: delete_tarefa_found [OF assms])
qed

theorem mutation_requires_admin_or_owner_witness:
  "userIsLoggedIn (session_of uid2 ''user'') \<and> findById hex24 [task_a] tid_a = Inr (Some task_a)
   \<and> put_tarefa hex24 (session_of uid2 ''user'') tid_a empty_body [task_a]
       = (Json 403 False (Message ''Acesso negado.''), [task_a])
   \<and> delete_tarefa hex24 (session_of uid2 ''user'') tid_a [task_a]
       = (Json 403 False (Message ''Acesso negado.''), [task_a])"
proof -
  have f: "findById hex24 [task_a] tid_a = Inr (Some task_a)"
    by (simp add: findById_def hex24_tid_a task_a_def)
  show ?thesis
    using logged_in_session_of f
      mutation_requires_admin_or_owner [OF logged_in_session_of f, of empty_body]
    by (simp add: session_of_def task_a_def sample_ids)
qed




section \<open>Ownership of a task on create and update\<close>

text \<open>
  C5. When POST /api/tarefas creates a task, the task's owner is the userId of the
  session, the task is what the store gains, and the answer is the same whatever owner
  the request body names: the body's user field is not read.
\<close>

theorem created_task_owner_is_session_user:
  assumes "post_tarefa s body new_id now db = (Json 201 True (Data t), db')"
  shows "userId s = Some (user t) \<and> db' = db @ [t]
       \<and> post_tarefa s (body\<lparr>b_user := forged\<rparr>) new_id now db = (Json 201 True (Data t), db')"
  using assms
  by (auto simp: post_tarefa_def isAuthenticated_def Let_def split: option.splits if_splits)

theorem created_task_owner_is_session_user_witness:
  "post_tarefa (session_of uid1 ''user'') body_a tid_a 100 [] = (Json 201 True (Data task_a), [task_a])
   \<and> userId (session_of uid1 ''user'') = Some (user task_a)
   \<and> post_tarefa (session_of uid1 ''user'') (body_a\<lparr>b_user := Some uid2\<rparr>) tid_a 100 []
       = (Json 201 True (Data task_a), [task_a])"
proof -
  have p: "post_tarefa (session_of uid1 ''user'') body_a tid_a 100 []
             = (Json 201 True (Data task_a), [task_a])"
    by (simp add: post_tarefa_def isAuthenticated_def userIsLoggedIn_def session_of_def body_a_def
        task_a_def task_errors_def trim_def is_space_def Alta_def Media_def Baixa_def Let_def
        uid1_def)
  show ?thesis
    using p created_task_owner_is_session_user [OF p, of "Some uid2"] by simp
qed

lemma put_tarefa_success:
  assumes "findById castable db i = Inr (Some t)"
      and "put_tarefa castable s i body db = (Json 200 True (Data t'), db')"
  shows "t' = assign_body t body \<and> db' = replace_task db t'
       \<and> user t' = (case b_user body of None \<Rightarrow> user t | Some u \<Rightarrow> u)"
  using assms
  by (auto simp: put_tarefa_def isAuthenticated_def assign_body_def Let_def
      split: option.splits if_splits)

text \<open>
  C4. The claim holds of no request whose body names a user: the handler merges the whole
  body into the document, the user field included. Here the owner of \<open>task_a\<close>,
  user 1, sends a PUT whose body names user 2; the answer is 200 and the task that is
  answered and stored belongs to user 2. The handlers that create tasks in the same file
  take the owner from the session and never from the body.
\<close>

theorem put_body_user_reassigns_owner:
  "findById hex24 [task_a] tid_a = Inr (Some task_a)
   \<and> put_tarefa hex24 (session_of uid1 ''user'') tid_a (empty_body\<lparr> b_user := Some uid2 \<rparr>) [task_a]
       = (Json 200 True (Data (task_a\<lparr> user := uid2 \<rparr>)), [task_a\<lparr> user := uid2 \<rparr>])
   \<and> user task_a = uid1
   \<and> uid2 \<noteq> uid1"
proof -
  have f: "findById hex24 [task_a] tid_a = Inr (Some task_a)"
    by (simp add: findById_def hex24_tid_a task_a_def)
  have l: "userIsLoggedIn (session_of uid1 ''user'')"
    by (simp add: userIsLoggedIn_def session_of_def uid1_def)
  have "put_tarefa hex24 (session_of uid1 ''user'') tid_a (empty_body\<lparr> b_user := Some uid2 \<rparr>) [task_a]
       = (Json 200 True (Data (task_a\<lparr> user := uid2 \<rparr>)), [task_a\<lparr> user := uid2 \<rparr>])"
    using uid2_nonempty
    by (subst put_tarefa_found [OF l f])
      (simp add: hex24_uid2 session_of_def empty_body_def task_a_def task_errors_def
        assign_body_def replace_task_def Alta_def Media_def Baixa_def Let_def uid1_def)
  then show ?thesis
    using f by (simp add: task_a_def uid1_def uid2_def)
qed

section \<open>Login and registration\<close>

lemma setters_ana: "email_setters ascii_toLowerCase ''Ana@X.com'' = ''ana@x.com''"
  by code_simp

lemma setters_ana2: "email_setters ascii_toLowerCase ''ANA@x.COM'' = ''ana@x.com''"
  by code_simp

lemma setters_ana3: "email_setters ascii_toLowerCase ''ana@x.com'' = ''ana@x.com''"
  by code_simp

lemma setters_bia: "email_setters ascii_toLowerCase ''bia@x.com'' = ''bia@x.com''"
  by code_simp

lemma lowercase_ana: "ascii_toLowerCase ''Ana@X.com'' = ascii_toLowerCase ''ANA@x.COM''"
  by code_simp

lemma register_ana:
  "post_cadastro ascii_toLowerCase sample_hash uid1 s form_ana []
     = (Redirect ''/login?status=success'', [user_ana])"
  by (simp add: post_cadastro_def findOne_email_def save_user_def form_ana_def user_ana_def
      sample_hash_def setters_ana user_errors_def required_errors_def trim_def is_space_def
      any_char_def Let_def)

lemma find_append_last:
  "P y \<Longrightarrow> \<exists>z. find P (xs @ [y]) = Some z"
  by (induction xs) auto

text \<open>
  When the login form carries a password, a registered address with a password that
  does not match and an address no user has get the same answer.
\<close>

lemma login_failure_uniform:
  assumes "findOne_email toLowerCase users (f_email b1) = Some u"
      and "f_password b1 = Some pw" and "\<not> compare pw (password u)"
      and "findOne_email toLowerCase users (f_email b2) = None"
  shows "post_login toLowerCase compare s b1 users = post_login toLowerCase compare s b2 users
       \<and> post_login toLowerCase compare s b2 users
           = (Render ''login'' [(''title'', Str ''Login''), (''error'', Str invalidos)], s)"
  using assms by (simp add: post_login_def Let_def)

text \<open>
  C7. The claim does not hold of the handler: two failing logins, both without a
  password field, one for the registered address of \<open>user_ana\<close> and one for an
  address no user has, get different messages. For the registered address
  \<^verbatim>\<open>bcrypt.compare\<close> throws on the absent password and the catch block answers;
  for the unknown address the handler answers from its branch for a failed login. The
  caller can tell from the message which addresses are registered.
\<close>

theorem login_without_password_tells_accounts_apart:
  "findOne_email ascii_toLowerCase [user_ana] (f_email login_ana_sem_senha) = Some user_ana
   \<and> findOne_email ascii_toLowerCase [user_ana] (f_email login_bia_sem_senha) = None
   \<and> post_login ascii_toLowerCase sample_compare anonymous login_ana_sem_senha [user_ana]
       = (Render ''login''
            [(''title'', Str ''Login''),
             (''error'', Str ''Ocorreu um erro ao tentar fazer login.'')], anonymous)
   \<and> post_login ascii_toLowerCase sample_compare anonymous login_bia_sem_senha [user_ana]
       = (Render ''login'' [(''title'', Str ''Login''), (''error'', Str invalidos)], anonymous)
   \<and> invalidos \<noteq> ''Ocorreu um erro ao tentar fazer login.''"
  by (simp add: post_login_def findOne_email_def user_ana_def login_ana_sem_senha_def
      login_bia_sem_senha_def setters_ana3 setters_bia invalidos_def Let_def)

text \<open>
  C8. After a registration that succeeded, a registration whose address has the same
  lower-case form as the first one (\<^verbatim>\<open>toLowerCase\<close>, whatever letters it folds)
  is answered with the registration view and the message \<open>ja_cadastrado\<close>, and the
  users collection stays as the first registration left it. The store itself refuses the
  second user as well: a save of the second form cannot succeed, whatever the other
  fields are.
\<close>

theorem second_registration_is_duplicate:
  assumes "post_cadastro toLowerCase hash1 id1 s1 b1 users
             = (Redirect ''/login?status=success'', users1)"
      and "f_email b1 = Some e1" and "f_email b2 = Some e2"
      and "toLowerCase e1 = toLowerCase e2"
  shows "post_cadastro toLowerCase hash2 id2 s2 b2 users1 =
           (Render ''cadastro''
              [(''title'', Str cadastro_title), (''error'', Str ja_cadastrado),
               (''nome'', local_of (f_nome b2)), (''telefone'', local_of (f_telefone b2)),
               (''email'', local_of (f_email b2))], users1)
       \<and> (\<exists>err. save_user toLowerCase hash2 id2 b2 users1 = Inl err)"
proof -
  have same: "email_setters toLowerCase e2 = email_setters toLowerCase e1"
    using assms(4) by (simp add: email_setters_def)
  have "findOne_email toLowerCase users (f_email b1) = None"
    using assms(1) by (auto simp: post_cadastro_def split: option.splits)
  then have "save_user toLowerCase hash1 id1 b1 users = Inr users1"
    using assms(1) by (auto simp: post_cadastro_def split: sum.splits)
  then obtain nu where nu: "users1 = users @ [nu]" "email nu = email_setters toLowerCase e1"
    using assms(2)
    by (auto simp: save_user_def Let_def split: option.splits if_splits)
  have "\<exists>z. findOne_email toLowerCase users1 (f_email b2) = Some z"
    using nu same assms(3)
      find_append_last [of "\<lambda>u. email u = email_setters toLowerCase e2" nu users]
    by (simp add: findOne_email_def)
  then have first: "post_cadastro toLowerCase hash2 id2 s2 b2 users1 =
           (Render ''cadastro''
              [(''title'', Str cadastro_title), (''error'', Str ja_cadastrado),
               (''nome'', local_of (f_nome b2)), (''telefone'', local_of (f_telefone b2)),
               (''email'', local_of (f_email b2))], users1)"
    by (auto simp: post_cadastro_def)
  have "\<exists>u \<in> set users1. email u = email_setters toLowerCase e2"
    using nu same by auto
  then have "\<exists>err. save_user toLowerCase hash2 id2 b2 users1 = Inl err"
    using assms(3) by (auto simp: save_user_def Let_def split: option.splits)
  with first show ?thesis by simp
qed

theorem second_registration_is_duplicate_witness:
  "post_cadastro ascii_toLowerCase sample_hash uid1 anonymous form_ana []
     = (Redirect ''/login?status=success'', [user_ana])
   \<and> ascii_toLowerCase ''Ana@X.com'' = ascii_toLowerCase ''ANA@x.COM''
   \<and> post_cadastro ascii_toLowerCase sample_hash uid2 anonymous
        (form_ana\<lparr> f_email := Some ''ANA@x.COM'' \<rparr>) [user_ana] =
           (Render ''cadastro''
              [(''title'', Str cadastro_title), (''error'', Str ja_cadastrado),
               (''nome'', Str ''Ana''), (''telefone'', Str ''21999''),
               (''email'', Str ''ANA@x.COM'')], [user_ana])
   \<and> save_user ascii_toLowerCase sample_hash uid2 (form_ana\<lparr> f_email := Some ''ANA@x.COM'' \<rparr>)
        [user_ana]
       = Inl (DuplicateKey ''ana@x.com'')"
proof -
  have e1: "f_email form_ana = Some ''Ana@X.com''" by (simp add: form_ana_def)
  have e2: "f_email (form_ana\<lparr> f_email := Some ''ANA@x.COM'' \<rparr>) = Some ''ANA@x.COM''" by simp
  have dup: "save_user ascii_toLowerCase sample_hash uid2
               (form_ana\<lparr> f_email := Some ''ANA@x.COM'' \<rparr>) [user_ana]
       = Inl (DuplicateKey ''ana@x.com'')"
    by (simp add: save_user_def form_ana_def user_ana_def setters_ana2 user_errors_def
        required_errors_def trim_def is_space_def any_char_def Let_def)
  show ?thesis
    using register_ana [of anonymous] lowercase_ana dup
      second_registration_is_duplicate [OF register_ana [of anonymous] e1 e2 lowercase_ana,
        of sample_hash uid2 anonymous]
    by (simp add: form_ana_def local_of_def)
qed

text \<open>
  C9, as stated, fails: a logged-in session posts the registration form, the account is
  created and the answer is the redirect of a successful registration.
\<close>

theorem registration_guard_counterexample:
  "userIsLoggedIn (session_of uid7 ''user'')
   \<and> post_cadastro ascii_toLowerCase sample_hash uid1 (session_of uid7 ''user'') form_ana []
       = (Redirect ''/login?status=success'', [user_ana])"
  using register_ana [of "session_of uid7 ''user''"]
  by (simp add: userIsLoggedIn_def session_of_def uid7_def)

text \<open>
  C9, amended. A logged-in request for the registration page, GET /cadastro, is
  redirected to /tarefas and creates no user. POST /cadastro has no guest guard: its
  answer and its effect on the users collection do not depend on the session.
\<close>

theorem registration_page_guest_only:
  assumes "userIsLoggedIn s"
  shows "get_cadastro s users = (Redirect ''/tarefas'', users)
       \<and> post_cadastro toLowerCase hash new_id s body users
           = post_cadastro toLowerCase hash new_id s' body users"
  using assms by (simp add: get_cadastro_def isGuest_def post_cadastro_def)

theorem registration_page_guest_only_witness:
  "userIsLoggedIn (session_of uid7 ''user'')
   \<and> get_cadastro (session_of uid7 ''user'') [] = (Redirect ''/tarefas'', [])
   \<and> post_cadastro ascii_toLowerCase sample_hash uid1 (session_of uid7 ''user'') form_ana []
       = post_cadastro ascii_toLowerCase sample_hash uid1 anonymous form_ana []"
proof -
  have l: "userIsLoggedIn (session_of uid7 ''user'')"
    by (simp add: userIsLoggedIn_def session_of_def uid7_def)
  show ?thesis
    using l registration_page_guest_only [OF l, where users = "[]" and hash = sample_hash
      and toLowerCase = ascii_toLowerCase and new_id = uid1 and body = form_ana and s' = anonymous]
    by simp
qed

section \<open>Ranking\<close>

lemma priority_names_distinct: "Alta \<noteq> Media" "Alta \<noteq> Baixa" "Media \<noteq> Baixa"
  by (simp_all add: Alta_def Media_def Baixa_def)

lemma sort_stage_keys_sorted:
  "sorted (map (\<lambda>d. (concluida (doc d), - priorityOrder d, - createdAt (doc d))) (sort_stage ds))"
  unfolding sort_stage_def by (rule sorted_sort_key)

lemma mset_sort_stage: "mset (sort_stage ds) = mset ds"
  by (simp add: sort_stage_def)

lemma set_rank_stages: "set (rank_stages ds) = addFields ` set ds"
  by (simp add: rank_stages_def sort_stage_def)

lemma doc_addFields: "doc (addFields x) = fst x"
  by (simp add: addFields_def)

text \<open>Two documents of the ranked list, the earlier one first, have their sort keys in order.\<close>

lemma rank_stages_pair:
  assumes "i < j" and "j < length (rank_stages ds)"
  shows "(concluida (doc (rank_stages ds ! i)), - priorityOrder (rank_stages ds ! i),
           - createdAt (doc (rank_stages ds ! i)))
       \<le> (concluida (doc (rank_stages ds ! j)), - priorityOrder (rank_stages ds ! j),
           - createdAt (doc (rank_stages ds ! j)))"
proof -
  let ?k = "\<lambda>d. (concluida (doc d), - priorityOrder d, - createdAt (doc d))"
  have "sorted (map ?k (rank_stages ds))"
    unfolding rank_stages_def by (rule sort_stage_keys_sorted)
  moreover have "i \<le> j" "j < length (map ?k (rank_stages ds))" using assms by simp_all
  ultimately have "map ?k (rank_stages ds) ! i \<le> map ?k (rank_stages ds) ! j"
    by (rule sorted_nth_mono)
  then show ?thesis using assms by simp
qed

text \<open>
  C1. The ranked listing of no task is empty, and the ranked listing of any tasks holds
  exactly those tasks. The weight of a task is 3 for \<open>Alta\<close>, 2 for \<open>Media\<close>, 1 for \<open>Baixa\<close> and 2
  for a priority that is missing or none of the three. Of two listed tasks, the earlier
  one is completed only if the later one is; when both have the same completion status the
  earlier one weighs at least as much; when status and weight are equal the earlier one
  was created no earlier than the later one.
\<close>

theorem rank_order:
  "rank_stages [] = []
   \<and> mset (map doc (rank_stages ds)) = mset (map fst ds)
   \<and> (\<forall>d \<in> set (rank_stages ds).
        (prioridade (doc d) = Some Alta \<longrightarrow> priorityOrder d = 3)
      \<and> (prioridade (doc d) = Some Media \<longrightarrow> priorityOrder d = 2)
      \<and> (prioridade (doc d) = Some Baixa \<longrightarrow> priorityOrder d = 1)
      \<and> (prioridade (doc d) \<notin> {Some Alta, Some Media, Some Baixa} \<longrightarrow> priorityOrder d = 2))
   \<and> (\<forall>i j. i < j \<and> j < length (rank_stages ds) \<longrightarrow>
        (concluida (doc (rank_stages ds ! i)) \<longrightarrow> concluida (doc (rank_stages ds ! j)))
      \<and> (concluida (doc (rank_stages ds ! i)) = concluida (doc (rank_stages ds ! j))
           \<longrightarrow> priorityOrder (rank_stages ds ! j) \<le> priorityOrder (rank_stages ds ! i))
      \<and> (concluida (doc (rank_stages ds ! i)) = concluida (doc (rank_stages ds ! j))
           \<and> priorityOrder (rank_stages ds ! i) = priorityOrder (rank_stages ds ! j)
           \<longrightarrow> createdAt (doc (rank_stages ds ! j)) \<le> createdAt (doc (rank_stages ds ! i))))"
proof (intro conjI)
  show "rank_stages [] = []"
    by (simp add: rank_stages_def sort_stage_def)
next
  have "mset (map doc (rank_stages ds)) = image_mset doc (mset (map addFields ds))"
    by (simp add: rank_stages_def mset_sort_stage)
  also have "\<dots> = mset (map fst ds)"
    by (simp add: addFields_def multiset.map_comp comp_def)
  finally show "mset (map doc (rank_stages ds)) = mset (map fst ds)" .
next
  show "\<forall>d \<in> set (rank_stages ds).
        (prioridade (doc d) = Some Alta \<longrightarrow> priorityOrder d = 3)
      \<and> (prioridade (doc d) = Some Media \<longrightarrow> priorityOrder d = 2)
      \<and> (prioridade (doc d) = Some Baixa \<longrightarrow> priorityOrder d = 1)
      \<and> (prioridade (doc d) \<notin> {Some Alta, Some Media, Some Baixa} \<longrightarrow> priorityOrder d = 2)"
    using priority_names_distinct
    by (auto simp: set_rank_stages addFields_def priority_switch_def)
next
  show "\<forall>i j. i < j \<and> j < length (rank_stages ds) \<longrightarrow>
        (concluida (doc (rank_stages ds ! i)) \<longrightarrow> concluida (doc (rank_stages ds ! j)))
      \<and> (concluida (doc (rank_stages ds ! i)) = concluida (doc (rank_stages ds ! j))
           \<longrightarrow> priorityOrder (rank_stages ds ! j) \<le> priorityOrder (rank_stages ds ! i))
      \<and> (concluida (doc (rank_stages ds ! i)) = concluida (doc (rank_stages ds ! j))
           \<and> priorityOrder (rank_stages ds ! i) = priorityOrder (rank_stages ds ! j)
           \<longrightarrow> createdAt (doc (rank_stages ds ! j)) \<le> createdAt (doc (rank_stages ds ! i)))"
  proof (intro allI impI)
    fix i j
    assume "i < j \<and> j < length (rank_stages ds)"
    then have "(concluida (doc (rank_stages ds ! i)), - priorityOrder (rank_stages ds ! i),
                 - createdAt (doc (rank_stages ds ! i)))
             \<le> (concluida (doc (rank_stages ds ! j)), - priorityOrder (rank_stages ds ! j),
                 - createdAt (doc (rank_stages ds ! j)))"
      using rank_stages_pair by blast
    then show "(concluida (doc (rank_stages ds ! i)) \<longrightarrow> concluida (doc (rank_stages ds ! j)))
      \<and> (concluida (doc (rank_stages ds ! i)) = concluida (doc (rank_stages ds ! j))
           \<longrightarrow> priorityOrder (rank_stages ds ! j) \<le> priorityOrder (rank_stages ds ! i))
      \<and> (concluida (doc (rank_stages ds ! i)) = concluida (doc (rank_stages ds ! j))
           \<and> priorityOrder (rank_stages ds ! i) = priorityOrder (rank_stages ds ! j)
           \<longrightarrow> createdAt (doc (rank_stages ds ! j)) \<le> createdAt (doc (rank_stages ds ! i)))"
      by (auto simp: less_bool_def le_bool_def)
  qed
qed

lemma rank_sample:
  "rank_stages sample_docs =
     [\<lparr> doc = task_e, userDetails = None, priorityOrder = 3 \<rparr>,
      \<lparr> doc = task_a, userDetails = None, priorityOrder = 3 \<rparr>,
      \<lparr> doc = task_d, userDetails = None, priorityOrder = 2 \<rparr>,
      \<lparr> doc = task_b, userDetails = None, priorityOrder = 1 \<rparr>,
      \<lparr> doc = task_c, userDetails = None, priorityOrder = 3 \<rparr>]"
  by (simp add: rank_stages_def sort_stage_def sample_docs_def addFields_def priority_switch_def
      task_a_def task_b_def task_c_def task_d_def task_e_def Alta_def Media_def Baixa_def)

theorem rank_order_witness:
  "rank_stages sample_docs =
     [\<lparr> doc = task_e, userDetails = None, priorityOrder = 3 \<rparr>,
      \<lparr> doc = task_a, userDetails = None, priorityOrder = 3 \<rparr>,
      \<lparr> doc = task_d, userDetails = None, priorityOrder = 2 \<rparr>,
      \<lparr> doc = task_b, userDetails = None, priorityOrder = 1 \<rparr>,
      \<lparr> doc = task_c, userDetails = None, priorityOrder = 3 \<rparr>]
   \<and> (0::nat) < 1 \<and> 1 < length (rank_stages sample_docs)
   \<and> concluida (doc (rank_stages sample_docs ! 0)) = concluida (doc (rank_stages sample_docs ! 1))
   \<and> priorityOrder (rank_stages sample_docs ! 0) = priorityOrder (rank_stages sample_docs ! 1)
   \<and> createdAt (doc (rank_stages sample_docs ! 1)) \<le> createdAt (doc (rank_stages sample_docs ! 0))
   \<and> createdAt (doc (rank_stages sample_docs ! 0)) = 500"
proof -
  have len: "(0::nat) < 1 \<and> 1 < length (rank_stages sample_docs)"
    by (simp add: rank_sample)
  have same: "concluida (doc (rank_stages sample_docs ! 0)) = concluida (doc (rank_stages sample_docs ! 1))
      \<and> priorityOrder (rank_stages sample_docs ! 0) = priorityOrder (rank_stages sample_docs ! 1)"
    by (simp add: rank_sample task_a_def task_e_def)
  have "createdAt (doc (rank_stages sample_docs ! 1)) \<le> createdAt (doc (rank_stages sample_docs ! 0))"
    using rank_order [of sample_docs] len same by blast
  then show ?thesis
    using len same by (simp add: rank_sample task_e_def)
qed

section \<open>Whose tasks a listing shows\<close>

lemma fst_lookup_unwind: "fst ` set (lookup_unwind users t) = {t}"
  by (auto simp: lookup_unwind_def image_iff split: list.splits)

lemma docs_category_pipeline:
  "doc ` set (category_pipeline cat users db) = {t \<in> set db. category t = Some cat}"
proof -
  have "doc ` set (category_pipeline cat users db)
      = fst ` (\<Union>t \<in> {t \<in> set db. category t = Some cat}. set (lookup_unwind users t))"
    by (simp add: category_pipeline_def set_rank_stages image_image doc_addFields)
  also have "\<dots> = (\<Union>t \<in> {t \<in> set db. category t = Some cat}. fst ` set (lookup_unwind users t))"
    by (rule image_UN)
  also have "\<dots> = {t \<in> set db. category t = Some cat}"
    by (simp add: fst_lookup_unwind)
  finally show ?thesis .
qed

text \<open>
  C3, as stated, fails: user u2, who is not an admin, opens the category page of
  \<open>Tarefa\<close> and the JSON listing, and both show \<open>task_a\<close>, which user u1 owns.
\<close>

theorem category_listing_counterexample:
  "userIsLoggedIn (session_of uid2 ''user'')
   \<and> userRole (session_of uid2 ''user'') \<noteq> Some ''admin''
   \<and> get_tarefas_categoria (session_of uid2 ''user'') [] [task_a] =
       Render ''tarefas''
         [(''title'', Str ''Minhas Tarefas''),
          (''description'', Str ''Acompanhe todas as suas tarefas.''),
          (''tasks'', Tasks [\<lparr> doc = task_a, userDetails = None, priorityOrder = 3 \<rparr>]),
          (''layout'', Str ''layout'')]
   \<and> get_api_tarefas (session_of uid2 ''user'') [task_a] = Json 200 True (DataList [task_a])
   \<and> userId (session_of uid2 ''user'') \<noteq> Some (user task_a)"
  by (simp add: get_tarefas_categoria_def get_category_page_def isAuthenticated_def
      userIsLoggedIn_def session_of_def category_pipeline_def lookup_unwind_def rank_stages_def
      sort_stage_def addFields_def priority_switch_def get_api_tarefas_def task_a_def Alta_def
      sample_ids)

text \<open>
  C3, amended. Every task that GET /tarefas of the owner-filtered variant lists is a task
  of the store whose owner is the session's userId, for a caller of any role. The
  category pages list the tasks of their category of every owner, and GET /api/tarefas
  lists every task of the store.
\<close>

theorem own_listing_only_own_tasks:
  assumes "get_tarefas s db = Render v locals"
      and "(''tasks'', Tasks ds) \<in> set locals" and "d \<in> set ds"
  shows "userId s = Some (user (doc d)) \<and> doc d \<in> set db
       \<and> doc ` set (category_pipeline cat users db) = {t \<in> set db. category t = Some cat}
       \<and> (\<exists>ts. get_api_tarefas s db = Json 200 True (DataList ts) \<and> set ts = set db)"
proof -
  from assms(1) obtain uid where uid: "userId s = Some uid"
    and loc: "locals = [(''title'', Str ''Gerenciador de Tarefas''),
                 (''description'', Str ''Gerencie suas tarefas de forma simples e eficiente.''),
                 (''tasks'', Tasks (tarefas_pipeline uid db))]"
    by (auto simp: get_tarefas_def isAuthenticated_def split: if_splits option.splits)
  from loc assms(2) have "ds = tarefas_pipeline uid db" by auto
  with assms(3) have "d \<in> addFields ` set (map (\<lambda>t. (t, None)) (filter (\<lambda>t. user t = uid) db))"
    by (simp add: tarefas_pipeline_def set_rank_stages)
  then have "user (doc d) = uid \<and> doc d \<in> set db"
    by (auto simp: doc_addFields)
  then show ?thesis
    using uid by (simp add: docs_category_pipeline get_api_tarefas_def)
qed

lemma listing_u1:
  "get_tarefas (session_of uid1 ''user'') [task_f, task_a] =
     Render ''tarefas''
       [(''title'', Str ''Gerenciador de Tarefas''),
        (''description'', Str ''Gerencie suas tarefas de forma simples e eficiente.''),
        (''tasks'', Tasks [\<lparr> doc = task_a, userDetails = None, priorityOrder = 3 \<rparr>])]"
  by (simp add: get_tarefas_def isAuthenticated_def userIsLoggedIn_def session_of_def
      tarefas_pipeline_def rank_stages_def sort_stage_def addFields_def priority_switch_def
      task_a_def task_f_def Alta_def sample_ids)

theorem own_listing_only_own_tasks_witness:
  "get_tarefas (session_of uid1 ''user'') [task_f, task_a] =
     Render ''tarefas''
       [(''title'', Str ''Gerenciador de Tarefas''),
        (''description'', Str ''Gerencie suas tarefas de forma simples e eficiente.''),
        (''tasks'', Tasks [\<lparr> doc = task_a, userDetails = None, priorityOrder = 3 \<rparr>])]
   \<and> userId (session_of uid1 ''user'') = Some (user task_a)
   \<and> task_a \<in> set [task_f, task_a]"
proof -
  have m: "(''tasks'', Tasks [\<lparr> doc = task_a, userDetails = None, priorityOrder = 3 \<rparr>])
       \<in> set [(''title'', Str ''Gerenciador de Tarefas''),
        (''description'', Str ''Gerencie suas tarefas de forma simples e eficiente.''),
        (''tasks'', Tasks [\<lparr> doc = task_a, userDetails = None, priorityOrder = 3 \<rparr>])]"
    by simp
  have d: "\<lparr> doc = task_a, userDetails = None, priorityOrder = 3 \<rparr>
       \<in> set [\<lparr> doc = task_a, userDetails = None, priorityOrder = 3 \<rparr>]"
    by simp
  show ?thesis
    using listing_u1 own_listing_only_own_tasks [OF listing_u1 m d]
    by simp
qed

section \<open>Dashboard statistics\<close>

subsection \<open>Rounding to a double\<close>

lemma pow2_power_int: "pow2 k = power_int 2 k"
  by (simp add: pow2_def power_int_def inverse_eq_divide power_one_over)

lemma pow2_pos: "0 < pow2 k"
  by (simp add: pow2_power_int)

lemma pow2_mono: "a \<le> b \<Longrightarrow> pow2 a \<le> pow2 b"
  by (simp add: pow2_power_int power_int_increasing)

lemma pow2_nonpos: "e \<le> 0 \<Longrightarrow> pow2 e = 1 / 2 ^ nat (- e)"
  by (cases "e = 0") (simp_all add: pow2_def)

lemma pow2_diff_nat: "pow2 (int a - int b) = 2 ^ a / 2 ^ b"
  by (simp add: pow2_power_int power_int_diff)

lemma pow2_pred: "pow2 (e - 1) = pow2 e / 2"
  by (simp add: pow2_power_int power_int_diff)

lemma rne_error: "\<bar>of_int (rne x) - x\<bar> \<le> 1 / 2"
proof -
  have "of_int \<lfloor>x\<rfloor> \<le> x" "x < of_int \<lfloor>x\<rfloor> + 1" by linarith+
  then show ?thesis
    by (auto simp: rne_def Let_def)
qed

lemma rne_le: "x \<le> of_int n \<Longrightarrow> rne x \<le> n"
proof -
  assume a: "x \<le> of_int n"
  have f: "\<lfloor>x\<rfloor> \<le> n" using a by (simp add: floor_le_iff)
  show ?thesis
  proof (cases "x - of_int \<lfloor>x\<rfloor> < 1 / 2")
    case True
    then show ?thesis using f by (simp add: rne_def Let_def)
  next
    case False
    then have "of_int \<lfloor>x\<rfloor> < x" by linarith
    then have "of_int \<lfloor>x\<rfloor> < (of_int n :: rat)" using a by linarith
    then have "\<lfloor>x\<rfloor> < n" by simp
    then show ?thesis by (auto simp: rne_def Let_def)
  qed
qed

lemma rne_nonneg: "0 \<le> x \<Longrightarrow> 0 \<le> rne x"
proof -
  assume "0 \<le> x"
  then have "0 \<le> \<lfloor>x\<rfloor>" by simp
  then show ?thesis by (auto simp: rne_def Let_def)
qed

lemma binade_lower:
  assumes "0 < x"
  shows "pow2 (binade x) \<le> x"
proof -
  define p where "p = fst (quotient_of x)"
  define q where "q = snd (quotient_of x)"
  have q: "0 < q" unfolding q_def by (rule quotient_of_denom_pos')
  have x: "x = of_int p / of_int q"
    unfolding p_def q_def by (rule quotient_of_div) simp
  have p: "0 < p" using assms q x by (simp add: zero_less_divide_iff)
  show ?thesis
  proof (cases "pow2 (bitlen p - bitlen q) \<le> x")
    case True
    then show ?thesis by (simp add: binade_def p_def q_def Let_def)
  next
    case False
    have bp: "1 \<le> bitlen p" using p bitlen_eq_zero_iff [of p] bitlen_nonneg [of p] by linarith
    have "(2::int) ^ nat (bitlen p - 1) \<le> p" using bitlen_bounds [OF p] by simp
    then have lo: "(2::rat) ^ nat (bitlen p - 1) \<le> of_int p"
      by (metis of_int_le_iff of_int_numeral of_int_power)
    have "q < 2 ^ nat (bitlen q)" using bitlen_bounds [OF q] by simp
    then have hi: "of_int q < (2::rat) ^ nat (bitlen q)"
      by (metis of_int_less_iff of_int_numeral of_int_power)
    have "bitlen p - bitlen q - 1 = int (nat (bitlen p - 1)) - int (nat (bitlen q))"
      using bp bitlen_nonneg [of q] by simp
    then have "pow2 (bitlen p - bitlen q - 1) = pow2 (int (nat (bitlen p - 1)) - int (nat (bitlen q)))"
      by (rule arg_cong)
    also have "\<dots> = 2 ^ nat (bitlen p - 1) / 2 ^ nat (bitlen q)"
      by (rule pow2_diff_nat)
    also have "\<dots> \<le> of_int p / 2 ^ nat (bitlen q)"
      using lo by (simp add: divide_right_mono)
    also have "\<dots> \<le> of_int p / of_int q"
      using hi p q by (simp add: frac_le)
    finally have "pow2 (bitlen p - bitlen q - 1) \<le> x" using x by simp
    then show ?thesis using False by (simp add: binade_def p_def q_def Let_def)
  qed
qed

lemma binade_upper:
  assumes "0 < x"
  shows "x < pow2 (binade x + 1)"
proof -
  define p where "p = fst (quotient_of x)"
  define q where "q = snd (quotient_of x)"
  have q: "0 < q" unfolding q_def by (rule quotient_of_denom_pos')
  have x: "x = of_int p / of_int q"
    unfolding p_def q_def by (rule quotient_of_div) simp
  have p: "0 < p" using assms q x by (simp add: zero_less_divide_iff)
  show ?thesis
  proof (cases "pow2 (bitlen p - bitlen q) \<le> x")
    case False
    then show ?thesis by (simp add: binade_def p_def q_def Let_def)
  next
    case True
    have bq: "1 \<le> bitlen q" using q bitlen_eq_zero_iff [of q] bitlen_nonneg [of q] by linarith
    have "p < 2 ^ nat (bitlen p)" using bitlen_bounds [OF p] by simp
    then have hi: "of_int p < (2::rat) ^ nat (bitlen p)"
      by (metis of_int_less_iff of_int_numeral of_int_power)
    have "(2::int) ^ nat (bitlen q - 1) \<le> q" using bitlen_bounds [OF q] by simp
    then have lo: "(2::rat) ^ nat (bitlen q - 1) \<le> of_int q"
      by (metis of_int_le_iff of_int_numeral of_int_power)
    have "x = of_int p / of_int q" by (rule x)
    also have "\<dots> < 2 ^ nat (bitlen p) / of_int q"
      using hi q by (simp add: divide_strict_right_mono)
    also have "\<dots> \<le> 2 ^ nat (bitlen p) / 2 ^ nat (bitlen q - 1)"
      using lo by (simp add: frac_le)
    also have "\<dots> = pow2 (int (nat (bitlen p)) - int (nat (bitlen q - 1)))"
      by (rule pow2_diff_nat [symmetric])
    also have "int (nat (bitlen p)) - int (nat (bitlen q - 1)) = bitlen p - bitlen q + 1"
      using bq bitlen_nonneg [of p] by simp
    finally have "x < pow2 (bitlen p - bitlen q + 1)" .
    then show ?thesis using True by (simp add: binade_def p_def q_def Let_def)
  qed
qed


lemma pow2_shift: "pow2 (e + int n) = pow2 e * 2 ^ n"
  by (simp add: pow2_power_int power_int_add)

text \<open>
  The scaled value that \<open>round_pos\<close> rounds to an integer has 53 bits before the
  point, so the result is the nearest number with a significand of 53 bits.
\<close>

lemma significand_range:
  assumes "0 < x"
  shows "2 ^ 52 \<le> x / pow2 (binade x - 52) \<and> x / pow2 (binade x - 52) < 2 ^ 53"
proof -
  define e where "e = binade x - 52"
  have pp: "0 < pow2 e" by (rule pow2_pos)
  have "e + int 52 = binade x" by (simp add: e_def)
  then have "pow2 (e + int 52) \<le> x" using binade_lower [OF assms] by (simp only:)
  then have lo: "pow2 e * 2 ^ 52 \<le> x" by (simp only: pow2_shift)
  have "e + int 53 = binade x + 1" by (simp add: e_def)
  then have "x < pow2 (e + int 53)" using binade_upper [OF assms] by (simp only:)
  then have hi: "x < pow2 e * 2 ^ 53" by (simp only: pow2_shift)
  have "2 ^ 52 \<le> x / pow2 e" using lo pp by (simp add: pos_le_divide_eq mult.commute)
  moreover have "x / pow2 e < 2 ^ 53" using hi pp by (simp add: pos_divide_less_eq mult.commute)
  ultimately show ?thesis by (simp add: e_def)
qed

lemma binade_less:
  assumes "0 < x" and "x < pow2 b"
  shows "binade x < b"
proof (rule ccontr)
  assume "\<not> binade x < b"
  then have "pow2 b \<le> pow2 (binade x)" by (simp add: pow2_mono)
  then show False using binade_lower [OF assms(1)] assms(2) by linarith
qed

lemma round_pos_nonneg: "0 < x \<Longrightarrow> 0 \<le> round_pos x"
proof -
  assume "0 < x"
  then have "0 \<le> x / pow2 (binade x - 52)" using pow2_pos [of "binade x - 52"] by simp
  then have "0 \<le> rne (x / pow2 (binade x - 52))" by (rule rne_nonneg)
  then show ?thesis using pow2_pos [of "binade x - 52"] by (simp add: round_pos_def Let_def)
qed

lemma round_pos_le:
  assumes "0 < x" and "x \<le> of_int n" and "binade x \<le> 52"
  shows "round_pos x \<le> of_int n"
proof -
  define e where "e = binade x - 52"
  define k where "k = nat (- e)"
  have e: "e \<le> 0" using assms(3) by (simp add: e_def)
  have pe: "pow2 e = 1 / 2 ^ k" unfolding k_def using e by (rule pow2_nonpos)
  have "x / pow2 e = x * 2 ^ k" by (simp add: pe)
  also have "\<dots> \<le> of_int n * 2 ^ k" using assms(2) by simp
  also have "\<dots> = of_int (n * 2 ^ k)" by simp
  finally have "rne (x / pow2 e) \<le> n * 2 ^ k" by (rule rne_le)
  then have "(of_int (rne (x / pow2 e)) :: rat) \<le> of_int (n * 2 ^ k)"
    by (simp only: of_int_le_iff)
  then have "of_int (rne (x / pow2 e)) * pow2 e \<le> of_int (n * 2 ^ k) * pow2 e"
    using pow2_pos [of e] by (simp add: mult_right_mono)
  also have "\<dots> = of_int n" by (simp add: pe)
  finally show ?thesis by (simp add: round_pos_def Let_def e_def)
qed

lemma round_pos_error:
  assumes "0 < x"
  shows "\<bar>round_pos x - x\<bar> \<le> pow2 (binade x - 53)"
proof -
  define e where "e = binade x - 52"
  define y where "y = x / pow2 e"
  have pp: "0 < pow2 e" by (rule pow2_pos)
  have xy: "x = y * pow2 e" using pp by (simp add: y_def)
  have "round_pos x - x = (of_int (rne y) - y) * pow2 e"
    using xy by (simp add: round_pos_def Let_def e_def y_def left_diff_distrib)
  then have "\<bar>round_pos x - x\<bar> = \<bar>of_int (rne y) - y\<bar> * pow2 e"
    using pp by (simp add: abs_mult)
  also have "\<dots> \<le> 1 / 2 * pow2 e"
    using rne_error [of y] pp by (simp add: mult_right_mono)
  also have "\<dots> = pow2 (binade x - 53)"
    using pow2_pred [of e] by (simp add: e_def)
  finally show ?thesis .
qed


lemma round_double_range:
  assumes "0 \<le> x" and "x \<le> of_int n" and "x < pow2 53"
  shows "0 \<le> round_double x \<and> round_double x \<le> of_int n"
proof (cases "x = 0")
  case True
  then show ?thesis using assms(2) by (simp add: round_double_def)
next
  case False
  then have pos: "0 < x" using assms(1) by simp
  have "binade x < 53" using pos assms(3) by (rule binade_less)
  then have "binade x \<le> 52" by simp
  then have "round_pos x \<le> of_int n" using pos assms(2) by (simp add: round_pos_le)
  then show ?thesis using pos round_pos_nonneg [OF pos] by (simp add: round_double_def)
qed

lemma round_double_error:
  assumes "0 \<le> x" and "x < pow2 b"
  shows "\<bar>round_double x - x\<bar> \<le> pow2 (b - 54)"
proof (cases "x = 0")
  case True
  then show ?thesis using pow2_pos [of "b - 54"] by (simp add: round_double_def)
next
  case False
  then have pos: "0 < x" using assms(1) by simp
  have "binade x < b" using pos assms(2) by (rule binade_less)
  then have "pow2 (binade x - 53) \<le> pow2 (b - 54)" by (simp add: pow2_mono)
  then show ?thesis using round_pos_error [OF pos] pos by (simp add: round_double_def)
qed

lemma double_product:
  assumes "0 \<le> c" and "c \<le> t" and "0 < t"
  shows "0 \<le> js_mul (js_div (of_int c) (of_int t)) 100
       \<and> js_mul (js_div (of_int c) (of_int t)) 100 \<le> 100
       \<and> \<bar>js_mul (js_div (of_int c) (of_int t)) 100 - 100 * of_int c / of_int t\<bar> \<le> 1 / 2 ^ 45"
proof -
  define x :: rat where "x = of_int c / of_int t"
  define a where "a = round_double x"
  define b where "b = round_double (a * 100)"
  have x0: "0 \<le> x" using assms by (simp add: x_def)
  have x1: "x \<le> of_int 1" using assms by (simp add: x_def)
  have p1: "pow2 1 = 2" and p53: "(1::rat) < pow2 53" and p7: "pow2 7 = 128"
    by (simp_all add: pow2_def)
  have "x < pow2 53" using x1 p53 by simp
  then have a: "0 \<le> a \<and> a \<le> of_int 1" unfolding a_def using x0 x1 by (intro round_double_range)
  have "x < pow2 1" using x1 p1 by simp
  then have "\<bar>a - x\<bar> \<le> pow2 (1 - 54)" unfolding a_def using x0 by (intro round_double_error)
  then have ea: "\<bar>a - x\<bar> \<le> 1 / 2 ^ 53" by (simp add: pow2_def)
  have y0: "0 \<le> a * 100" using a by simp
  have y1: "a * 100 \<le> of_int 100" using a by simp
  have "a * 100 < pow2 53" using y1 by (simp add: pow2_def)
  then have b: "0 \<le> b \<and> b \<le> of_int 100" unfolding b_def using y0 y1 by (intro round_double_range)
  have "a * 100 < pow2 7" using y1 p7 by simp
  then have "\<bar>b - a * 100\<bar> \<le> pow2 (7 - 54)" unfolding b_def using y0 by (intro round_double_error)
  then have eb: "\<bar>b - a * 100\<bar> \<le> 1 / 2 ^ 47" by (simp add: pow2_def)
  have ea2: "a - x \<le> 1 / 2 ^ 53" "x - a \<le> 1 / 2 ^ 53"
    using ea unfolding abs_le_iff by linarith+
  have eb2: "b - a * 100 \<le> 1 / 2 ^ 47" "a * 100 - b \<le> 1 / 2 ^ 47"
    using eb unfolding abs_le_iff by linarith+
  have sum: "(1::rat) / 2 ^ 47 + 100 * (1 / 2 ^ 53) \<le> 1 / 2 ^ 45" by simp
  have "b - 100 * x \<le> 1 / 2 ^ 45" "100 * x - b \<le> 1 / 2 ^ 45"
    using ea2 eb2 sum by linarith+
  then have close: "\<bar>b - 100 * x\<bar> \<le> 1 / 2 ^ 45"
    unfolding abs_le_iff by linarith
  have "js_mul (js_div (of_int c) (of_int t)) 100 = b"
    by (simp add: js_mul_def js_div_def a_def b_def x_def)
  then show ?thesis using b close by (simp add: x_def)
qed

lemma percent_range:
  assumes "0 \<le> c" and "c \<le> t" and "0 < t"
  shows "0 \<le> math_round (js_mul (js_div (of_int c) (of_int t)) 100)
       \<and> math_round (js_mul (js_div (of_int c) (of_int t)) 100) \<le> 100"
proof -
  define b where "b = js_mul (js_div (of_int c) (of_int t)) 100"
  have b: "0 \<le> b \<and> b \<le> 100" using double_product [OF assms] by (simp add: b_def)
  have lo: "0 \<le> \<lfloor>b + 1 / 2\<rfloor>" using b by simp
  have hi: "\<lfloor>b + 1 / 2\<rfloor> \<le> 100" using b by (simp add: floor_le_iff)
  show ?thesis using lo hi by (simp add: math_round_def b_def)
qed

text \<open>
  A fraction with denominator \<open>D\<close> that is not an integer is at least \<open>1 / D\<close>
  away from the integers on both sides.
\<close>

lemma fraction_gap:
  fixes N D :: int
  assumes "0 < D" and "of_int \<lfloor>of_int N / of_int D :: rat\<rfloor> \<noteq> (of_int N / of_int D :: rat)"
  shows "of_int \<lfloor>of_int N / of_int D :: rat\<rfloor> + 1 / of_int D \<le> (of_int N / of_int D :: rat)
       \<and> (of_int N / of_int D :: rat) + 1 / of_int D \<le> of_int \<lfloor>of_int N / of_int D :: rat\<rfloor> + 1"
proof -
  define n where "n = N div D"
  define r where "r = N mod D"
  have fl: "\<lfloor>of_int N / of_int D :: rat\<rfloor> = n"
    by (simp add: n_def floor_divide_of_int_eq)
  have N: "N = D * n + r" by (simp add: n_def r_def)
  have D0: "(0::rat) < of_int D" using assms(1) by simp
  have val: "(of_int N / of_int D :: rat) = of_int n + of_int r / of_int D"
    using D0 by (simp add: N field_simps)
  have "r \<noteq> 0" using assms(2) val fl by auto
  moreover have "0 \<le> r" "r < D" using assms(1) by (simp_all add: r_def)
  ultimately have r: "1 \<le> r" "r + 1 \<le> D" by simp_all
  have lo: "(1::rat) / of_int D \<le> of_int r / of_int D"
    using r(1) D0 by (simp add: divide_right_mono)
  have "(of_int (r + 1) :: rat) \<le> of_int D" using r(2) by (simp only: of_int_le_iff)
  then have "(of_int r + 1) / of_int D \<le> (1::rat)" using D0 by (simp add: pos_divide_le_eq)
  then have hi: "of_int r / of_int D + 1 / of_int D \<le> (1::rat)" by (simp add: add_divide_distrib)
  show ?thesis unfolding fl unfolding val using lo hi by linarith
qed

lemma tie_iff:
  fixes q :: rat
  shows "frac q = 1 / 2 \<longleftrightarrow> of_int \<lfloor>q + 1 / 2\<rfloor> = q + 1 / 2"
proof
  assume "frac q = 1 / 2"
  then have "q + 1 / 2 = of_int (\<lfloor>q\<rfloor> + 1)" by (simp add: frac_def)
  then show "of_int \<lfloor>q + 1 / 2\<rfloor> = q + 1 / 2" by (metis floor_of_int)
next
  assume a: "of_int \<lfloor>q + 1 / 2\<rfloor> = q + 1 / 2"
  define n where "n = \<lfloor>q + 1 / 2\<rfloor>"
  have "q = of_int n - 1 / 2" using a unfolding n_def by linarith
  then have q: "q = of_int (n - 1) + 1 / 2" by simp
  have "\<lfloor>q\<rfloor> = n - 1" by (subst q) (rule floor_unique, simp_all)
  then show "frac q = 1 / 2" using q by (simp add: frac_def)
qed

lemma percent_exact:
  assumes "0 \<le> c" and "c \<le> t" and "0 < t" and "t < 2 ^ 32"
  shows "(frac (100 * of_int c / of_int t :: rat) \<noteq> 1 / 2 \<longrightarrow>
            math_round (js_mul (js_div (of_int c) (of_int t)) 100)
              = round (100 * of_int c / of_int t :: rat))
       \<and> (frac (100 * of_int c / of_int t :: rat) = 1 / 2 \<longrightarrow>
            math_round (js_mul (js_div (of_int c) (of_int t)) 100)
              = round (100 * of_int c / of_int t :: rat)
          \<or> math_round (js_mul (js_div (of_int c) (of_int t)) 100)
              = round (100 * of_int c / of_int t :: rat) - 1)"
proof -
  define q :: rat where "q = 100 * of_int c / of_int t"
  define b where "b = js_mul (js_div (of_int c) (of_int t)) 100"
  define w where "w = q + 1 / 2"
  define n where "n = \<lfloor>w\<rfloor>"
  define eps :: rat where "eps = 1 / 2 ^ 45"
  have close: "\<bar>b - q\<bar> \<le> eps"
    using double_product [OF assms(1-3)] by (simp add: b_def q_def eps_def)
  have cl: "b - q \<le> eps" "q - b \<le> eps"
    using close unfolding abs_le_iff by linarith+
  have t0: "(0::rat) < of_int t" using assms(3) by simp
  have wfrac: "w = of_int (200 * c + t) / of_int (2 * t)"
    using t0 by (simp add: w_def q_def field_simps)
  have "(of_int (2 * t) :: rat) \<le> of_int (2 ^ 33)"
    using assms(4) by (simp only: of_int_le_iff) simp
  then have "(1::rat) / of_int (2 ^ 33) \<le> 1 / of_int (2 * t)"
    using t0 by (intro divide_left_mono) simp_all
  moreover have "eps < 1 / of_int (2 ^ 33)" by (simp add: eps_def)
  ultimately have small: "eps < 1 / of_int (2 * t)" by linarith
  have eps0: "0 \<le> eps" "eps < 1 / 2" by (simp_all add: eps_def)
  have nw: "of_int n \<le> w" "w < of_int n + 1" unfolding n_def by linarith+
  have m: "math_round b = \<lfloor>b + 1 / 2\<rfloor>" by (simp add: math_round_def)
  have r: "round q = n" by (simp add: round_def n_def w_def)
  have c1: "of_int n \<noteq> w \<Longrightarrow> math_round b = round q"
  proof -
    assume ne: "of_int n \<noteq> w"
    have "of_int n + 1 / of_int (2 * t) \<le> w \<and> w + 1 / of_int (2 * t) \<le> of_int n + 1"
      using fraction_gap [of "2 * t" "200 * c + t"] assms(3) ne
      unfolding n_def wfrac by simp
    then have "of_int n \<le> b + 1 / 2" "b + 1 / 2 < of_int n + 1"
      using cl small unfolding w_def by linarith+
    then have "\<lfloor>b + 1 / 2\<rfloor> = n" by (intro floor_unique)
    then show ?thesis by (simp add: m r)
  qed
  have c2: "of_int n = w \<Longrightarrow> math_round b = round q \<or> math_round b = round q - 1"
  proof -
    assume eq: "of_int n = w"
    have "of_int n - 1 \<le> b + 1 / 2" and hi: "b + 1 / 2 < of_int n + 1"
      using cl eps0 eq unfolding w_def by linarith+
    then have lo: "of_int (n - 1) \<le> b + 1 / 2" by simp
    have "n - 1 \<le> \<lfloor>b + 1 / 2\<rfloor>" using lo by (simp only: le_floor_iff)
    moreover have "b + 1 / 2 < of_int (n + 1)" using hi by simp
    then have "\<lfloor>b + 1 / 2\<rfloor> < n + 1" by (simp only: floor_less_iff)
    ultimately show ?thesis by (simp add: m r) linarith
  qed
  have tie: "frac q = 1 / 2 \<longleftrightarrow> of_int n = w"
    using tie_iff [of q] by (simp add: n_def w_def)
  show ?thesis
    using c1 c2 tie unfolding b_def q_def by blast
qed

lemma stats_forty:
  "dashboard_stats forty_tasks = \<lparr> total = 40, concluidas = 23, pendentes = 17, percentual = 57 \<rparr>"
  by code_simp

lemma stats_three:
  "dashboard_stats three_tasks = \<lparr> total = 3, concluidas = 1, pendentes = 2, percentual = 33 \<rparr>"
  by code_simp

lemma frac_three: "frac (100 / 3 :: rat) = 1 / 3"
  by code_simp

lemma frac_forty: "frac (115 / 2 :: rat) = 1 / 2"
  by code_simp

subsection \<open>The statistics\<close>

text \<open>
  C10, as stated, fails: of 40 tasks 23 are completed, \<open>100 * 23 / 40\<close> is 57.5 and
  rounds to 58, and the dashboard shows 57. The double nearest to 23/40 lies below it,
  and so does its product with 100.
\<close>

theorem percentual_counterexample:
  "total (dashboard_stats forty_tasks) = 40 \<and> concluidas (dashboard_stats forty_tasks) = 23
   \<and> percentual (dashboard_stats forty_tasks) = 57
   \<and> round (100 * 23 / 40 :: rat) = 58
   \<and> percentual (dashboard_stats forty_tasks)
       \<noteq> round (100 * of_int (concluidas (dashboard_stats forty_tasks))
                  / of_int (total (dashboard_stats forty_tasks)) :: rat)"
proof -
  have "round (100 * 23 / 40 :: rat) = 58" by (simp add: round_def) 
  then show ?thesis by (simp add: stats_forty)
qed

text \<open>
  C10, amended. For every list of tasks, total is the number of tasks, concluidas the
  number of completed ones, pendentes their difference and not negative. percentual is 0
  for the empty list and otherwise \<^verbatim>\<open>Math.round\<close> of the product, as a double,
  of 100 and the quotient, as a double, of concluidas and total; it lies between 0 and
  100. For a list shorter than \<open>2^32\<close>, the longest array there is, percentual is
  \<open>100 * concluidas / total\<close> rounded to the nearest integer whenever that value is
  not half-way between two integers; when it is half-way, percentual is the rounded
  value or one less.
\<close>

theorem dashboard_stats_properties:
  "total (dashboard_stats ts) = int (length ts)
   \<and> concluidas (dashboard_stats ts) = int (length (filter concluida ts))
   \<and> pendentes (dashboard_stats ts) = total (dashboard_stats ts) - concluidas (dashboard_stats ts)
   \<and> 0 \<le> pendentes (dashboard_stats ts)
   \<and> (ts = [] \<longrightarrow> percentual (dashboard_stats ts) = 0)
   \<and> (ts \<noteq> [] \<longrightarrow>
        percentual (dashboard_stats ts)
          = math_round (js_mul (js_div (of_int (concluidas (dashboard_stats ts)))
                                       (of_int (total (dashboard_stats ts)))) 100))
   \<and> 0 \<le> percentual (dashboard_stats ts) \<and> percentual (dashboard_stats ts) \<le> 100
   \<and> (ts \<noteq> [] \<and> length ts < 2 ^ 32
        \<and> frac (100 * of_int (concluidas (dashboard_stats ts))
                  / of_int (total (dashboard_stats ts)) :: rat) \<noteq> 1 / 2
        \<longrightarrow> percentual (dashboard_stats ts)
              = round (100 * of_int (concluidas (dashboard_stats ts))
                         / of_int (total (dashboard_stats ts)) :: rat))
   \<and> (ts \<noteq> [] \<and> length ts < 2 ^ 32
        \<and> frac (100 * of_int (concluidas (dashboard_stats ts))
                  / of_int (total (dashboard_stats ts)) :: rat) = 1 / 2
        \<longrightarrow> percentual (dashboard_stats ts)
              = round (100 * of_int (concluidas (dashboard_stats ts))
                         / of_int (total (dashboard_stats ts)) :: rat)
          \<or> percentual (dashboard_stats ts)
              = round (100 * of_int (concluidas (dashboard_stats ts))
                         / of_int (total (dashboard_stats ts)) :: rat) - 1)"
proof (cases "ts = []")
  case True
  then show ?thesis by (simp add: dashboard_stats_def)
next
  case False
  define c where "c = int (length (filter concluida ts))"
  define t where "t = int (length ts)"
  have c0: "0 \<le> c" by (simp add: c_def)
  have ct: "c \<le> t" by (simp add: c_def t_def)
  have t0: "0 < t" using False by (simp add: t_def)
  have per: "percentual (dashboard_stats ts) = math_round (js_mul (js_div (of_int c) (of_int t)) 100)"
    using t0 by (simp add: dashboard_stats_def Let_def c_def t_def)
  have rest: "total (dashboard_stats ts) = t" "concluidas (dashboard_stats ts) = c"
    "pendentes (dashboard_stats ts) = t - c"
    by (simp_all add: dashboard_stats_def Let_def c_def t_def)
  have counts: "t = int (length ts)" "c = int (length (filter concluida ts))"
    by (simp_all add: c_def t_def)
  have exact: "length ts < 2 ^ 32 \<Longrightarrow>
       (frac (100 * of_int c / of_int t :: rat) \<noteq> 1 / 2 \<longrightarrow>
            math_round (js_mul (js_div (of_int c) (of_int t)) 100)
              = round (100 * of_int c / of_int t :: rat))
       \<and> (frac (100 * of_int c / of_int t :: rat) = 1 / 2 \<longrightarrow>
            math_round (js_mul (js_div (of_int c) (of_int t)) 100)
              = round (100 * of_int c / of_int t :: rat)
          \<or> math_round (js_mul (js_div (of_int c) (of_int t)) 100)
              = round (100 * of_int c / of_int t :: rat) - 1)"
  proof -
    assume "length ts < 2 ^ 32"
    then have "int (length ts) < int (2 ^ 32)" by (simp only: of_nat_less_iff)
    then have "t < 2 ^ 32" unfolding t_def by (simp only: of_nat_power of_nat_numeral)
    then show ?thesis by (rule percent_exact [OF c0 ct t0])
  qed
  show ?thesis
    unfolding rest per
  proof (intro conjI)
    show "t = int (length ts)" by (rule counts)
    show "c = int (length (filter concluida ts))" by (rule counts)
    show "t - c = t - c" by (rule refl)
    show "0 \<le> t - c" using ct by simp
    show "ts = [] \<longrightarrow> math_round (js_mul (js_div (of_int c) (of_int t)) 100) = 0"
      using False by blast
    show "ts \<noteq> [] \<longrightarrow> math_round (js_mul (js_div (of_int c) (of_int t)) 100)
            = math_round (js_mul (js_div (of_int c) (of_int t)) 100)"
      by blast
    show "0 \<le> math_round (js_mul (js_div (of_int c) (of_int t)) 100)"
      using percent_range [OF c0 ct t0] by blast
    show "math_round (js_mul (js_div (of_int c) (of_int t)) 100) \<le> 100"
      using percent_range [OF c0 ct t0] by blast
    show "ts \<noteq> [] \<and> length ts < 2 ^ 32 \<and> frac (100 * of_int c / of_int t :: rat) \<noteq> 1 / 2
        \<longrightarrow> math_round (js_mul (js_div (of_int c) (of_int t)) 100)
              = round (100 * of_int c / of_int t :: rat)"
      using exact by blast
    show "ts \<noteq> [] \<and> length ts < 2 ^ 32 \<and> frac (100 * of_int c / of_int t :: rat) = 1 / 2
        \<longrightarrow> math_round (js_mul (js_div (of_int c) (of_int t)) 100)
              = round (100 * of_int c / of_int t :: rat)
          \<or> math_round (js_mul (js_div (of_int c) (of_int t)) 100)
              = round (100 * of_int c / of_int t :: rat) - 1"
      using exact by blast
  qed
qed

theorem dashboard_stats_properties_witness:
  "three_tasks \<noteq> [] \<and> length three_tasks < 2 ^ 32
   \<and> frac (100 * 1 / 3 :: rat) \<noteq> 1 / 2
   \<and> percentual (dashboard_stats three_tasks) = 33
   \<and> round (100 * 1 / 3 :: rat) = 33
   \<and> forty_tasks \<noteq> [] \<and> length forty_tasks < 2 ^ 32
   \<and> frac (100 * 23 / 40 :: rat) = 1 / 2
   \<and> percentual (dashboard_stats forty_tasks) = 57
   \<and> round (100 * 23 / 40 :: rat) - 1 = 57
   \<and> pendentes (dashboard_stats forty_tasks) = 17
   \<and> percentual (dashboard_stats []) = 0"
proof -
  have n: "forty_tasks \<noteq> []" "length forty_tasks < 2 ^ 32"
    by (simp_all add: forty_tasks_def)
  have m: "three_tasks \<noteq> []" "length three_tasks < 2 ^ 32"
    by (simp_all add: three_tasks_def)
  have r: "round (100 * 1 / 3 :: rat) = 33" "round (100 * 23 / 40 :: rat) = 58"
    by code_simp+
  show ?thesis
    using n m r dashboard_stats_properties [of forty_tasks] dashboard_stats_properties [of "[]"]
      dashboard_stats_properties [of three_tasks]
    by (simp add: stats_forty stats_three frac_three frac_forty)
qed

end
